theory Spec2Isabelle
  imports Complex_Main
begin

section \<open>NeuroPulse: the stream-processing core\<close>

text \<open>
  A shallow embedding of the correlation engine of NeuroPulse:
  \<^item> \<^verbatim>\<open>neuro_pulse_streaming/stream_processor.py\<close> (the run loop, the readiness check,
    risk categorisation, hospital selection),
  \<^item> \<^verbatim>\<open>neuro_pulse_streaming/trend_analyzer.py\<close> (history window, rate and direction,
    recency-weighted change),
  \<^item> \<^verbatim>\<open>neuro_pulse_streaming/circuit_breaker.py\<close> (the three-state breaker),
  \<^item> \<^verbatim>\<open>neuro_pulse_streaming/vertex_ai_service.py\<close> (the heuristic predictor).

  Python's \<open>float\<close> is modelled by \<open>real\<close>, \<open>int\<close> by \<open>int\<close>, \<open>Optional[t]\<close> by
  \<open>t option\<close>, \<open>str\<close> by \<open>string\<close>. Python truthiness is written out: \<open>if x:\<close> on an
  \<open>Optional[int]\<close> holds iff \<open>x\<close> is neither \<open>None\<close> nor \<open>0\<close>, on a \<open>str\<close> iff it is not
  empty, and on a dataclass instance always.
\<close>

subsection \<open>The feature vector (\<open>AiPredictionRequest\<close>)\<close>

record AiPredictionRequest =
  case_id :: string
  patient_id :: string
  ems_unit_id :: string
  age_years :: "int option"
  sex :: "string option"
  heart_rate_bpm :: "int option"
  systolic_bp_mmHg :: "int option"
  diastolic_bp_mmHg :: "int option"
  respiratory_rate_bpm :: "int option"
  spo2_pct :: "int option"
  gcs_total :: "int option"
  blood_glucose_mg_dL :: "int option"
  face_droop_present :: bool
  arm_weakness_any :: bool
  speech_abnormal_any :: bool
  fast_score :: "int option"
  minutes_since_symptom_onset :: "int option"
  minutes_since_last_known_well :: "int option"
  distance_km_to_nearest_primary_center :: "real option"
  distance_km_to_nearest_comprehensive_center :: "real option"
  estimated_travel_min_to_primary_center :: "int option"
  estimated_travel_min_to_comprehensive_center :: "int option"
  primary_center_additional_door_to_needle_min :: "int option"
  comprehensive_center_additional_door_to_needle_min :: "int option"
  ems_suspected_stroke :: bool
  ems_suspected_lvo :: bool
  features_version :: string

text \<open>Truthiness of an \<open>Optional[int]\<close> and of a \<open>str\<close>.\<close>

definition truthy_int :: "int option \<Rightarrow> bool" where
  "truthy_int x = (case x of None \<Rightarrow> False | Some n \<Rightarrow> n \<noteq> 0)"

definition truthy_str :: "string option \<Rightarrow> bool" where
  "truthy_str x = (case x of None \<Rightarrow> False | Some s \<Rightarrow> s \<noteq> [])"

subsection \<open>Risk categorisation (\<open>StreamProcessor._categorize_risk\<close>)\<close>

definition categorize_risk :: "real \<Rightarrow> real \<Rightarrow> string" where
  "categorize_risk stroke_prob lvo_prob =
     (if stroke_prob \<ge> 0.8 \<or> lvo_prob \<ge> 0.6 then ''CRITICAL''
      else if stroke_prob \<ge> 0.6 \<or> lvo_prob \<ge> 0.4 then ''HIGH''
      else if stroke_prob \<ge> 0.3 then ''MODERATE''
      else ''LOW'')"

subsection \<open>The heuristic predictor (\<open>vertex_ai_service._heuristic_predict\<close>)\<close>

definition BASE_STROKE_PROBABILITY :: real where "BASE_STROKE_PROBABILITY = 0.2"
definition BASE_LVO_PROBABILITY :: real where "BASE_LVO_PROBABILITY = 0.05"
definition FAST_SCORE_MAX :: int where "FAST_SCORE_MAX = 3"
definition FAST_SCORE_STROKE_WEIGHT :: real where "FAST_SCORE_STROKE_WEIGHT = 0.2"
definition FAST_SCORE_LVO_THRESHOLD :: int where "FAST_SCORE_LVO_THRESHOLD = 2"
definition FAST_SCORE_LVO_INCREMENT :: real where "FAST_SCORE_LVO_INCREMENT = 0.15"
definition FACE_DROOP_STROKE_INCREMENT :: real where "FACE_DROOP_STROKE_INCREMENT = 0.15"
definition ARM_WEAKNESS_STROKE_INCREMENT :: real where "ARM_WEAKNESS_STROKE_INCREMENT = 0.12"
definition ARM_WEAKNESS_LVO_INCREMENT :: real where "ARM_WEAKNESS_LVO_INCREMENT = 0.12"
definition SPEECH_ABNORMAL_STROKE_INCREMENT :: real where "SPEECH_ABNORMAL_STROKE_INCREMENT = 0.10"
definition TIME_WINDOW_IV_TPA :: int where "TIME_WINDOW_IV_TPA = 270"
definition TIME_WINDOW_EXTENDED :: int where "TIME_WINDOW_EXTENDED = 360"
definition TIME_WINDOW_IV_TPA_INCREMENT :: real where "TIME_WINDOW_IV_TPA_INCREMENT = 0.08"
definition TIME_WINDOW_EXTENDED_INCREMENT :: real where "TIME_WINDOW_EXTENDED_INCREMENT = 0.05"
definition GCS_NORMAL :: int where "GCS_NORMAL = 15"
definition GCS_MODERATE_THRESHOLD :: int where "GCS_MODERATE_THRESHOLD = 13"
definition GCS_REDUCED_STROKE_INCREMENT :: real where "GCS_REDUCED_STROKE_INCREMENT = 0.10"
definition GCS_SEVERE_LVO_INCREMENT :: real where "GCS_SEVERE_LVO_INCREMENT = 0.08"
definition BP_ELEVATED_THRESHOLD :: int where "BP_ELEVATED_THRESHOLD = 180"
definition BP_ELEVATED_STROKE_INCREMENT :: real where "BP_ELEVATED_STROKE_INCREMENT = 0.05"

lemmas heuristic_constants =
  BASE_STROKE_PROBABILITY_def BASE_LVO_PROBABILITY_def FAST_SCORE_MAX_def
  FAST_SCORE_STROKE_WEIGHT_def FAST_SCORE_LVO_THRESHOLD_def FAST_SCORE_LVO_INCREMENT_def
  FACE_DROOP_STROKE_INCREMENT_def ARM_WEAKNESS_STROKE_INCREMENT_def
  ARM_WEAKNESS_LVO_INCREMENT_def SPEECH_ABNORMAL_STROKE_INCREMENT_def
  TIME_WINDOW_IV_TPA_def TIME_WINDOW_EXTENDED_def TIME_WINDOW_IV_TPA_INCREMENT_def
  TIME_WINDOW_EXTENDED_INCREMENT_def GCS_NORMAL_def GCS_MODERATE_THRESHOLD_def
  GCS_REDUCED_STROKE_INCREMENT_def GCS_SEVERE_LVO_INCREMENT_def
  BP_ELEVATED_THRESHOLD_def BP_ELEVATED_STROKE_INCREMENT_def

text \<open>
  The source mutates the two running sums \<open>base_stroke_prob\<close> and \<open>base_lvo_prob\<close> in six
  consecutive blocks. Each block is one function on the pair of sums, in source order.
\<close>

definition fast_score_step :: "AiPredictionRequest \<Rightarrow> real \<times> real \<Rightarrow> real \<times> real" where
  "fast_score_step request p =
     (case p of (base_stroke_prob, base_lvo_prob) \<Rightarrow>
        (case fast_score request of
           None \<Rightarrow> (base_stroke_prob, base_lvo_prob)
         | Some fs \<Rightarrow>
             if fs = 0 then (base_stroke_prob, base_lvo_prob)
             else (base_stroke_prob
                     + FAST_SCORE_STROKE_WEIGHT * real_of_int (min fs FAST_SCORE_MAX)
                         / real_of_int FAST_SCORE_MAX,
                   if fs \<ge> FAST_SCORE_LVO_THRESHOLD
                   then base_lvo_prob + FAST_SCORE_LVO_INCREMENT else base_lvo_prob)))"

definition face_droop_step :: "AiPredictionRequest \<Rightarrow> real \<times> real \<Rightarrow> real \<times> real" where
  "face_droop_step request p =
     (case p of (base_stroke_prob, base_lvo_prob) \<Rightarrow>
        if face_droop_present request
        then (base_stroke_prob + FACE_DROOP_STROKE_INCREMENT, base_lvo_prob)
        else (base_stroke_prob, base_lvo_prob))"

definition arm_weakness_step :: "AiPredictionRequest \<Rightarrow> real \<times> real \<Rightarrow> real \<times> real" where
  "arm_weakness_step request p =
     (case p of (base_stroke_prob, base_lvo_prob) \<Rightarrow>
        if arm_weakness_any request
        then (base_stroke_prob + ARM_WEAKNESS_STROKE_INCREMENT,
              base_lvo_prob + ARM_WEAKNESS_LVO_INCREMENT)
        else (base_stroke_prob, base_lvo_prob))"

definition speech_step :: "AiPredictionRequest \<Rightarrow> real \<times> real \<Rightarrow> real \<times> real" where
  "speech_step request p =
     (case p of (base_stroke_prob, base_lvo_prob) \<Rightarrow>
        if speech_abnormal_any request
        then (base_stroke_prob + SPEECH_ABNORMAL_STROKE_INCREMENT, base_lvo_prob)
        else (base_stroke_prob, base_lvo_prob))"

definition time_window_step :: "AiPredictionRequest \<Rightarrow> real \<times> real \<Rightarrow> real \<times> real" where
  "time_window_step request p =
     (case p of (base_stroke_prob, base_lvo_prob) \<Rightarrow>
        (case minutes_since_symptom_onset request of
           None \<Rightarrow> (base_stroke_prob, base_lvo_prob)
         | Some m \<Rightarrow>
             if m \<le> TIME_WINDOW_IV_TPA
             then (base_stroke_prob + TIME_WINDOW_IV_TPA_INCREMENT, base_lvo_prob)
             else if m \<le> TIME_WINDOW_EXTENDED
             then (base_stroke_prob + TIME_WINDOW_EXTENDED_INCREMENT, base_lvo_prob)
             else (base_stroke_prob, base_lvo_prob)))"

definition gcs_step :: "AiPredictionRequest \<Rightarrow> real \<times> real \<Rightarrow> real \<times> real" where
  "gcs_step request p =
     (case p of (base_stroke_prob, base_lvo_prob) \<Rightarrow>
        (case gcs_total request of
           None \<Rightarrow> (base_stroke_prob, base_lvo_prob)
         | Some g \<Rightarrow>
             if g < GCS_NORMAL
             then (base_stroke_prob + GCS_REDUCED_STROKE_INCREMENT,
                   if g < GCS_MODERATE_THRESHOLD
                   then base_lvo_prob + GCS_SEVERE_LVO_INCREMENT else base_lvo_prob)
             else (base_stroke_prob, base_lvo_prob)))"

definition bp_step :: "AiPredictionRequest \<Rightarrow> real \<times> real \<Rightarrow> real \<times> real" where
  "bp_step request p =
     (case p of (base_stroke_prob, base_lvo_prob) \<Rightarrow>
        (case systolic_bp_mmHg request of
           None \<Rightarrow> (base_stroke_prob, base_lvo_prob)
         | Some b \<Rightarrow>
             if b > BP_ELEVATED_THRESHOLD
             then (base_stroke_prob + BP_ELEVATED_STROKE_INCREMENT, base_lvo_prob)
             else (base_stroke_prob, base_lvo_prob)))"

definition clamp01 :: "real \<Rightarrow> real" where
  "clamp01 x = max 0.0 (min 1.0 x)"

definition heuristic_predict :: "AiPredictionRequest \<Rightarrow> real \<times> real" where
  "heuristic_predict request =
     (case bp_step request (gcs_step request (time_window_step request
             (speech_step request (arm_weakness_step request (face_droop_step request
                (fast_score_step request (BASE_STROKE_PROBABILITY, BASE_LVO_PROBABILITY)))))))
      of (base_stroke_prob, base_lvo_prob) \<Rightarrow> (clamp01 base_stroke_prob, clamp01 base_lvo_prob))"

text \<open>A request as \<open>_build_prediction_request\<close> produces it, for use at concrete inputs.\<close>

definition example_request :: AiPredictionRequest where
  "example_request =
     \<lparr> case_id = ''CASE-1'', patient_id = ''PAT-1'', ems_unit_id = ''EMS-1'',
       age_years = Some 68, sex = Some ''FEMALE'',
       heart_rate_bpm = Some 88, systolic_bp_mmHg = Some 185, diastolic_bp_mmHg = Some 95,
       respiratory_rate_bpm = Some 18, spo2_pct = Some 96, gcs_total = Some 12,
       blood_glucose_mg_dL = Some 110,
       face_droop_present = True, arm_weakness_any = True, speech_abnormal_any = True,
       fast_score = Some 3,
       minutes_since_symptom_onset = Some 45, minutes_since_last_known_well = Some 60,
       distance_km_to_nearest_primary_center = Some 5.0,
       distance_km_to_nearest_comprehensive_center = Some 12.0,
       estimated_travel_min_to_primary_center = Some 8,
       estimated_travel_min_to_comprehensive_center = Some 15,
       primary_center_additional_door_to_needle_min = None,
       comprehensive_center_additional_door_to_needle_min = None,
       ems_suspected_stroke = True, ems_suspected_lvo = True,
       features_version = ''v1'' \<rparr>"

subsection \<open>The trend analyzer (\<open>trend_analyzer.py\<close>)\<close>

record VitalSnapshot =
  snap_timestamp :: string
  snap_heart_rate_bpm :: "int option"
  snap_systolic_bp_mmHg :: "int option"
  snap_diastolic_bp_mmHg :: "int option"
  snap_spo2_pct :: "int option"
  snap_gcs_total :: "int option"

text \<open>Trend directions are integers: \<open>-1\<close> worsening, \<open>0\<close> stable, \<open>1\<close> improving.\<close>

record TrendFeatures =
  hr_rate_of_change :: "real option"
  bp_rate_of_change :: "real option"
  spo2_rate_of_change :: "real option"
  gcs_rate_of_change :: "real option"
  hr_trend :: "int option"
  bp_trend :: "int option"
  spo2_trend :: "int option"
  gcs_trend :: "int option"
  hr_volatility :: "real option"
  bp_volatility :: "real option"
  spo2_volatility :: "real option"
  hr_recent_change :: "real option"
  bp_recent_change :: "real option"
  spo2_recent_change :: "real option"
  gcs_recent_change :: "real option"

text \<open>\<open>TrendFeatures()\<close>: every field \<open>None\<close>.\<close>

definition empty_features :: TrendFeatures where
  "empty_features =
     \<lparr> hr_rate_of_change = None, bp_rate_of_change = None, spo2_rate_of_change = None,
       gcs_rate_of_change = None, hr_trend = None, bp_trend = None, spo2_trend = None,
       gcs_trend = None, hr_volatility = None, bp_volatility = None, spo2_volatility = None,
       hr_recent_change = None, bp_recent_change = None, spo2_recent_change = None,
       gcs_recent_change = None \<rparr>"

record TrendAnalyzer =
  max_history_size :: nat
  vital_history :: "string \<rightharpoonup> VitalSnapshot list"

definition init_trend_analyzer :: "nat \<Rightarrow> TrendAnalyzer" where
  "init_trend_analyzer n = \<lparr> max_history_size = n, vital_history = Map.empty \<rparr>"

text \<open>
  The slice \<open>xs[-n:]\<close> for \<open>n \<ge> 0\<close>: the last \<open>n\<close> elements, and the whole list when
  \<open>n = 0\<close> (\<open>xs[-0:]\<close> is \<open>xs[0:]\<close>).
\<close>

definition last_slice :: "nat \<Rightarrow> 'a list \<Rightarrow> 'a list" where
  "last_slice n xs = (if n = 0 then xs else drop (length xs - n) xs)"

definition add_vital_snapshot :: "TrendAnalyzer \<Rightarrow> string \<Rightarrow> VitalSnapshot \<Rightarrow> TrendAnalyzer" where
  "add_vital_snapshot ta cid snapshot =
     (let history = (case vital_history ta cid of None \<Rightarrow> [] | Some h \<Rightarrow> h) @ [snapshot];
          history = (if length history > max_history_size ta
                     then last_slice (max_history_size ta) history else history)
      in ta\<lparr>vital_history := (vital_history ta)(cid \<mapsto> history)\<rparr>)"

text \<open>
  \<open>_parse_timestamp\<close>: seconds since the epoch, and \<open>0.0\<close> for a string that does not parse.
  \<open>fromiso\<close> stands for the library's \<open>datetime.fromisoformat\<close> (after the replacement of
  \<open>Z\<close>) followed by \<open>timestamp()\<close>; it is \<open>None\<close> where the library raises.
\<close>

definition parse_timestamp :: "(string \<Rightarrow> real option) \<Rightarrow> string \<Rightarrow> real" where
  "parse_timestamp fromiso ts = (case fromiso ts of Some t \<Rightarrow> t | None \<Rightarrow> 0.0)"

definition calculate_rate_and_trend :: "(real \<times> real) list \<Rightarrow> real option \<times> int option" where
  "calculate_rate_and_trend values =
     (if length values < 2 then (None, None)
      else
        let values = sort_key fst values;
            time_diff_min = (fst (last values) - fst (hd values)) / 60.0
        in if time_diff_min = 0 then (None, None)
           else
             let value_diff = snd (last values) - snd (hd values);
                 rate = value_diff / time_diff_min;
                 trend = (if \<bar>rate\<bar> < 0.1 then 0 else if rate > 0 then 1 else -1)
             in (Some rate, Some trend))"

definition calculate_volatility :: "real list \<Rightarrow> real option" where
  "calculate_volatility values =
     (if length values < 2 then None
      else
        let mean = sum_list values / real (length values)
        in if mean = 0 then None
           else
             let variance = sum_list (map (\<lambda>x. (x - mean)\<^sup>2) values) / real (length values);
                 std_dev = sqrt variance
             in if mean \<noteq> 0 then Some (std_dev / mean) else None)"

text \<open>
  The accumulation loop of \<open>_calculate_recent_change\<close>: the pair
  \<open>(total_weight, weighted_sum)\<close> after the points seen so far.
\<close>

fun weighted_loop :: "real \<Rightarrow> (real \<times> real) list \<Rightarrow> real \<times> real \<Rightarrow> real \<times> real" where
  "weighted_loop latest_time [] acc = acc"
| "weighted_loop latest_time ((t, v) # rest) (total_weight, weighted_sum) =
     (let age_minutes = (latest_time - t) / 60.0;
          weight = exp (- age_minutes / 2.0)
      in weighted_loop latest_time rest (total_weight + weight, weighted_sum + v * weight))"

definition calculate_recent_change :: "(real \<times> real) list \<Rightarrow> real \<Rightarrow> real option" where
  "calculate_recent_change values window_minutes =
     (if length values < 2 then None
      else
        let values = sort_key fst values;
            latest_time = fst (last values);
            recent_values = filter (\<lambda>(t, v). (latest_time - t) / 60.0 \<le> window_minutes) values
        in if length recent_values < 2 then None
           else
             (case weighted_loop latest_time recent_values (0.0, 0.0) of
                (total_weight, weighted_sum) \<Rightarrow>
                  if total_weight = 0 then None
                  else
                    let weighted_avg = weighted_sum / total_weight
                    in Some (weighted_avg - snd (hd recent_values))))"

text \<open>The time series of one vital: the snapshots that carry it, in history order.\<close>

definition series ::
  "(string \<Rightarrow> real option) \<Rightarrow> (VitalSnapshot \<Rightarrow> int option) \<Rightarrow> VitalSnapshot list
     \<Rightarrow> (real \<times> real) list" where
  "series fromiso field history =
     List.map_filter
       (\<lambda>s. map_option (\<lambda>v. (parse_timestamp fromiso (snap_timestamp s), real_of_int v)) (field s))
       history"

definition calculate_trends ::
  "(string \<Rightarrow> real option) \<Rightarrow> TrendAnalyzer \<Rightarrow> string \<Rightarrow> TrendFeatures" where
  "calculate_trends fromiso ta cid =
     (case vital_history ta cid of
        None \<Rightarrow> empty_features
      | Some history \<Rightarrow>
          if length history < 2 then empty_features
          else
            let hr_values = series fromiso snap_heart_rate_bpm history;
                bp_values = series fromiso snap_systolic_bp_mmHg history;
                spo2_values = series fromiso snap_spo2_pct history;
                gcs_values = series fromiso snap_gcs_total history;
                features = empty_features;
                features =
                  (if length hr_values \<ge> 2 then
                     features\<lparr>hr_rate_of_change := fst (calculate_rate_and_trend hr_values),
                              hr_trend := snd (calculate_rate_and_trend hr_values),
                              hr_volatility := calculate_volatility (map snd hr_values),
                              hr_recent_change := calculate_recent_change hr_values 5.0\<rparr>
                   else features);
                features =
                  (if length bp_values \<ge> 2 then
                     features\<lparr>bp_rate_of_change := fst (calculate_rate_and_trend bp_values),
                              bp_trend := snd (calculate_rate_and_trend bp_values),
                              bp_volatility := calculate_volatility (map snd bp_values),
                              bp_recent_change := calculate_recent_change bp_values 5.0\<rparr>
                   else features);
                features =
                  (if length spo2_values \<ge> 2 then
                     features\<lparr>spo2_rate_of_change := fst (calculate_rate_and_trend spo2_values),
                              spo2_trend := snd (calculate_rate_and_trend spo2_values),
                              spo2_volatility := calculate_volatility (map snd spo2_values),
                              spo2_recent_change := calculate_recent_change spo2_values 5.0\<rparr>
                   else features);
                features =
                  (if length gcs_values \<ge> 2 then
                     features\<lparr>gcs_rate_of_change := fst (calculate_rate_and_trend gcs_values),
                              gcs_trend := snd (calculate_rate_and_trend gcs_values),
                              gcs_recent_change := calculate_recent_change gcs_values 5.0\<rparr>
                   else features)
            in features)"

subsection \<open>Inbound events\<close>

record EmsVitalsEvent =
  vitals_case_id :: string
  vitals_patient_id :: string
  vitals_ems_unit_id :: string
  vitals_event_ts :: string
  vitals_sequence_number :: int
  vitals_heart_rate_bpm :: "int option"
  vitals_systolic_bp_mmHg :: "int option"
  vitals_diastolic_bp_mmHg :: "int option"
  vitals_respiratory_rate_bpm :: "int option"
  vitals_spo2_pct :: "int option"
  vitals_temperature_c :: "real option"
  vitals_gcs_total :: "int option"
  vitals_blood_glucose_mg_dL :: "int option"
  vitals_ecg_rhythm :: "string option"
  vitals_is_artifact_suspected :: bool
  vitals_source_device :: "string option"

record EmsFastExamEvent =
  exam_case_id :: string
  exam_patient_id :: string
  exam_ems_unit_id :: string
  exam_ts :: string
  face_droop :: string
  arm_weakness :: string
  speech_difficulty :: string
  symptom_onset_ts :: "string option"
  last_known_well_ts :: "string option"
  prestroke_disability :: "int option"
  suspected_stroke_side :: "string option"
  exam_fast_score :: "int option"
  exam_ems_suspected_stroke :: bool
  exam_notes :: "string option"

record HospitalCapacityEvent =
  hospital_id :: string
  hospital_name :: string
  updated_ts :: string
  latitude :: real
  longitude :: real
  stroke_center_level :: string
  has_ct_available :: bool
  has_cta_available :: bool
  can_perform_mechanical_thrombectomy :: bool
  ed_crowding_score :: "int option"
  current_stroke_cases_in_ed :: "int option"
  accepting_acute_stroke_now :: bool
  estimated_additional_door_to_needle_minutes :: "int option"
  hospital_notes :: "string option"

text \<open>
  A polled message: its topic (\<open>ems.vitals.raw\<close>, \<open>ems.fast.exam\<close>, \<open>hospital.capacity\<close>)
  and what the topic's parser returns for its bytes, \<open>None\<close> when the parser fails.
\<close>

datatype Message =
    VitalsMsg "EmsVitalsEvent option"
  | FastExamMsg "EmsFastExamEvent option"
  | CapacityMsg "HospitalCapacityEvent option"

subsection \<open>Feature building (\<open>_minutes_between\<close>, \<open>_build_prediction_request\<close>)\<close>

text \<open>The exception that escapes the processor's own code.\<close>

datatype py_error = TypeError

text \<open>
  A parsed \<open>datetime\<close>: whether it carries a UTC offset (is offset-aware), and its position
  on the time line in seconds. Python subtracts two datetimes only when both are aware or
  both are naive, and raises \<open>TypeError\<close> otherwise.
\<close>

record datetime =
  tz_aware :: bool
  dt_seconds :: real

text \<open>
  \<open>_parse_iso\<close>. \<open>fromisoformat\<close> is the library's parser (after the replacement of a final
  \<open>Z\<close>), \<open>None\<close> where it raises; \<open>_parse_iso\<close> catches that exception.
\<close>

definition parse_iso :: "(string \<Rightarrow> datetime option) \<Rightarrow> string option \<Rightarrow> datetime option" where
  "parse_iso fromisoformat ts = (case ts of None \<Rightarrow> None | Some str \<Rightarrow> fromisoformat str)"

text \<open>
  \<open>_minutes_between\<close>. The subtraction \<open>end_dt - start_dt\<close> is outside any \<open>try\<close>: with one
  datetime aware and the other naive the function raises.
\<close>

definition minutes_between ::
  "(string \<Rightarrow> datetime option) \<Rightarrow> string option \<Rightarrow> string option
     \<Rightarrow> py_error + int option" where
  "minutes_between fromisoformat start end_ts =
     (case parse_iso fromisoformat start of
        None \<Rightarrow> Inr None
      | Some start_dt \<Rightarrow>
          (case parse_iso fromisoformat end_ts of
             None \<Rightarrow> Inr None
           | Some end_dt \<Rightarrow>
               if tz_aware end_dt \<noteq> tz_aware start_dt then Inl TypeError
               else Inr (Some \<lfloor>(dt_seconds end_dt - dt_seconds start_dt) / 60\<rfloor>)))"

definition build_prediction_request ::
  "(string \<Rightarrow> datetime option) \<Rightarrow> EmsVitalsEvent \<Rightarrow> EmsFastExamEvent option
     \<Rightarrow> HospitalCapacityEvent list \<Rightarrow> py_error + AiPredictionRequest option" where
  "build_prediction_request fromisoformat vitals fast_exam_opt capacity_events =
     (case fast_exam_opt of
        None \<Rightarrow> Inr None
      | Some fast_exam \<Rightarrow>
          let now_iso = vitals_event_ts vitals
          in case minutes_between fromisoformat (symptom_onset_ts fast_exam) (Some now_iso) of
               Inl e \<Rightarrow> Inl e
             | Inr minutes_since_onset \<Rightarrow>
          (case minutes_between fromisoformat (last_known_well_ts fast_exam) (Some now_iso) of
               Inl e \<Rightarrow> Inl e
             | Inr minutes_since_lkw \<Rightarrow>
          let primary = find (\<lambda>c. stroke_center_level c = ''PRIMARY'') capacity_events;
              comp = find (\<lambda>c. stroke_center_level c = ''COMPREHENSIVE'') capacity_events;
              primary_extra_dtn =
                (case primary of None \<Rightarrow> None
                 | Some c \<Rightarrow> estimated_additional_door_to_needle_minutes c);
              comp_extra_dtn =
                (case comp of None \<Rightarrow> None
                 | Some c \<Rightarrow> estimated_additional_door_to_needle_minutes c)
          in Inr (Some
            \<lparr> case_id = vitals_case_id vitals,
              patient_id = vitals_patient_id vitals,
              ems_unit_id = vitals_ems_unit_id vitals,
              age_years = Some 68,
              sex = Some ''FEMALE'',
              heart_rate_bpm = vitals_heart_rate_bpm vitals,
              systolic_bp_mmHg = vitals_systolic_bp_mmHg vitals,
              diastolic_bp_mmHg = vitals_diastolic_bp_mmHg vitals,
              respiratory_rate_bpm = vitals_respiratory_rate_bpm vitals,
              spo2_pct = vitals_spo2_pct vitals,
              gcs_total = vitals_gcs_total vitals,
              blood_glucose_mg_dL = vitals_blood_glucose_mg_dL vitals,
              face_droop_present = (face_droop fast_exam = ''PRESENT''),
              arm_weakness_any =
                (arm_weakness fast_exam \<in> set [''LEFT'', ''RIGHT'', ''BILATERAL'']),
              speech_abnormal_any =
                (speech_difficulty fast_exam \<in> set [''DYSARTHRIA'', ''APHASIA_SUSPECTED'']),
              fast_score = exam_fast_score fast_exam,
              minutes_since_symptom_onset = minutes_since_onset,
              minutes_since_last_known_well = minutes_since_lkw,
              distance_km_to_nearest_primary_center = Some 5.0,
              distance_km_to_nearest_comprehensive_center = Some 12.0,
              estimated_travel_min_to_primary_center = Some 8,
              estimated_travel_min_to_comprehensive_center = Some 15,
              primary_center_additional_door_to_needle_min = primary_extra_dtn,
              comprehensive_center_additional_door_to_needle_min = comp_extra_dtn,
              ems_suspected_stroke = exam_ems_suspected_stroke fast_exam,
              ems_suspected_lvo =
                (case exam_fast_score fast_exam of None \<Rightarrow> False
                 | Some n \<Rightarrow> n \<noteq> 0 \<and> n \<ge> 2),
              features_version = ''v1'' \<rparr>)))"

subsection \<open>Hospital selection (\<open>StreamProcessor._choose_hospital\<close>)\<close>

definition choose_hospital ::
  "AiPredictionRequest \<Rightarrow> HospitalCapacityEvent list
     \<Rightarrow> string option \<times> string option \<times> int option \<times> int option" where
  "choose_hospital request capacity_events =
     (let primary = find (\<lambda>c. stroke_center_level c = ''PRIMARY'') capacity_events;
          comp = find (\<lambda>c. stroke_center_level c = ''COMPREHENSIVE'') capacity_events;
          primary_id = map_option hospital_id primary;
          comp_id = map_option hospital_id comp;
          primary_travel = estimated_travel_min_to_primary_center request;
          comp_travel = estimated_travel_min_to_comprehensive_center request;
          default =
            (if truthy_str primary_id
             then (primary_id, Some ''PRIMARY_CENTER'', primary_travel,
                   primary_center_additional_door_to_needle_min request)
             else (None, None, None, None))
      in if ems_suspected_lvo request \<and> truthy_str comp_id \<and> truthy_int comp_travel then
           (if (case primary_travel of
                  None \<Rightarrow> True
                | Some p \<Rightarrow> (case comp_travel of None \<Rightarrow> False | Some c \<Rightarrow> c \<le> p + 15))
            then (comp_id, Some ''COMPREHENSIVE_CENTER'', comp_travel,
                  comprehensive_center_additional_door_to_needle_min request)
            else default)
         else default)"

subsection \<open>The processor (\<open>StreamProcessor\<close>)\<close>

text \<open>
  The fields of \<open>AiPredictionResponse\<close> that the processor computes from its own state.
  The identifier, the time stamp, the explanation texts, the confidence and the importance
  map are not modelled; \<open>current_vitals\<close> is the reading itself rather than its dictionary.
\<close>

record AiPredictionResponse =
  pred_case_id :: string
  pred_patient_id :: string
  stroke_probability :: real
  lvo_probability :: real
  risk_category :: string
  recommended_destination_hospital_id :: "string option"
  recommended_destination_type :: "string option"
  estimated_travel_min_to_recommended :: "int option"
  estimated_additional_door_to_needle_min_at_recommended :: "int option"
  pred_minutes_since_symptom_onset :: "int option"
  current_vitals :: "EmsVitalsEvent option"

text \<open>
  The processor's state. \<open>published\<close> is the sequence of predictions handed to
  \<open>_publish_prediction\<close>, oldest first.
\<close>

record StreamProcessor =
  latest_vitals :: "string \<rightharpoonup> EmsVitalsEvent"
  latest_fast_exam :: "string \<rightharpoonup> EmsFastExamEvent"
  latest_capacity :: "HospitalCapacityEvent list"
  processed_cases :: "string set"
  trend_analyzer :: TrendAnalyzer
  published :: "AiPredictionResponse list"

text \<open>\<open>StreamProcessor.__init__\<close>.\<close>

definition init_processor :: StreamProcessor where
  "init_processor =
     \<lparr> latest_vitals = Map.empty, latest_fast_exam = Map.empty, latest_capacity = [],
       processed_cases = {}, trend_analyzer = init_trend_analyzer 20, published = [] \<rparr>"

text \<open>The trend-based adjustment of the two probabilities in \<open>_process_case\<close>.\<close>

definition trend_adjust :: "TrendFeatures \<Rightarrow> real \<times> real \<Rightarrow> real \<times> real" where
  "trend_adjust trend_features p =
     (case p of (stroke_prob, lvo_prob) \<Rightarrow>
        let (stroke_prob, lvo_prob) =
              (if gcs_trend trend_features = Some (-1) \<and>
                  (case gcs_rate_of_change trend_features of None \<Rightarrow> False
                   | Some r \<Rightarrow> r \<noteq> 0 \<and> r < -0.1)
               then (min 1.0 (stroke_prob + 0.05), min 1.0 (lvo_prob + 0.03))
               else (stroke_prob, lvo_prob));
            stroke_prob =
              (if spo2_trend trend_features = Some (-1) \<and>
                  (case spo2_rate_of_change trend_features of None \<Rightarrow> False
                   | Some r \<Rightarrow> r \<noteq> 0 \<and> r < -0.5)
               then min 1.0 (stroke_prob + 0.03)
               else stroke_prob)
        in (stroke_prob, lvo_prob))"

text \<open>
  \<open>_process_case\<close>. The result is \<open>Inl\<close> the exception when feature building raises, which
  \<open>_process_case\<close> does not catch; nothing has been changed by then. \<open>fromiso\<close> is the trend
  analyzer's timestamp parser and \<open>fromisoformat\<close> the processor's. \<open>predict\<close> stands for
  \<open>predict_with_vertex_ai\<close>, an outside service that never raises; its answer may differ
  from one evaluation to the next, so it is given the number of predictions published so
  far as well as the request.
\<close>

definition process_case ::
  "(string \<Rightarrow> real option) \<Rightarrow> (string \<Rightarrow> datetime option)
     \<Rightarrow> (nat \<Rightarrow> AiPredictionRequest \<Rightarrow> real \<times> real) \<Rightarrow> string
     \<Rightarrow> StreamProcessor \<Rightarrow> py_error + StreamProcessor" where
  "process_case fromiso fromisoformat predict cid s =
     (if cid \<in> processed_cases s then Inr s
      else
        (case latest_vitals s cid of
           None \<Rightarrow> Inr s
         | Some vitals \<Rightarrow>
             (case latest_fast_exam s cid of
                None \<Rightarrow> Inr s
              | Some fast_exam \<Rightarrow>
                  (case build_prediction_request fromisoformat vitals (Some fast_exam)
                          (latest_capacity s) of
                     Inl e \<Rightarrow> Inl e
                   | Inr None \<Rightarrow> Inr s
                   | Inr (Some request) \<Rightarrow>
                       let trend_features = calculate_trends fromiso (trend_analyzer s) cid;
                           (stroke_prob, lvo_prob) =
                             trend_adjust trend_features
                               (predict (length (published s)) request);
                           (dest_hosp_id, dest_type, travel_min, extra_dtn) =
                             choose_hospital request (latest_capacity s);
                           prediction =
                             \<lparr> pred_case_id = cid,
                               pred_patient_id = patient_id request,
                               stroke_probability = stroke_prob,
                               lvo_probability = lvo_prob,
                               risk_category = categorize_risk stroke_prob lvo_prob,
                               recommended_destination_hospital_id = dest_hosp_id,
                               recommended_destination_type = dest_type,
                               estimated_travel_min_to_recommended = travel_min,
                               estimated_additional_door_to_needle_min_at_recommended = extra_dtn,
                               pred_minutes_since_symptom_onset =
                                 minutes_since_symptom_onset request,
                               current_vitals = Some vitals \<rparr>
                       in Inr (s\<lparr>published := published s @ [prediction],
                                 processed_cases := insert cid (processed_cases s)\<rparr>)))))"

text \<open>
  A call of \<open>_process_case\<close> from the loop: the exception, if any, paired with the
  state as it is when the exception leaves the loop body.
\<close>

definition call_process_case ::
  "(string \<Rightarrow> real option) \<Rightarrow> (string \<Rightarrow> datetime option)
     \<Rightarrow> (nat \<Rightarrow> AiPredictionRequest \<Rightarrow> real \<times> real) \<Rightarrow> string
     \<Rightarrow> StreamProcessor \<Rightarrow> py_error option \<times> StreamProcessor" where
  "call_process_case fromiso fromisoformat predict cid s =
     (case process_case fromiso fromisoformat predict cid s of
        Inl e \<Rightarrow> (Some e, s)
      | Inr s' \<Rightarrow> (None, s'))"

text \<open>
  One iteration of the loop of \<open>run\<close> on a polled message. The final
  \<open>if case_id and topic != "ems.vitals.raw"\<close> is reached with a case id on the exam topic
  only; \<open>case_id\<close> stays \<open>None\<close> on the capacity topic and after a failed parse.
\<close>

definition handle_message ::
  "(string \<Rightarrow> real option) \<Rightarrow> (string \<Rightarrow> datetime option)
     \<Rightarrow> (nat \<Rightarrow> AiPredictionRequest \<Rightarrow> real \<times> real) \<Rightarrow> Message
     \<Rightarrow> StreamProcessor \<Rightarrow> py_error option \<times> StreamProcessor" where
  "handle_message fromiso fromisoformat predict msg s =
     (case msg of
        VitalsMsg None \<Rightarrow> (None, s)
      | VitalsMsg (Some vitals) \<Rightarrow>
          let cid = vitals_case_id vitals;
              is_update = (cid \<in> processed_cases s);
              s1 = s\<lparr>latest_vitals := (latest_vitals s)(vitals_case_id vitals \<mapsto> vitals)\<rparr>
          in if is_update
             then call_process_case fromiso fromisoformat predict cid
                    (s1\<lparr>processed_cases := processed_cases s1 - {cid}\<rparr>)
             else call_process_case fromiso fromisoformat predict cid s1
      | FastExamMsg None \<Rightarrow> (None, s)
      | FastExamMsg (Some fast_exam) \<Rightarrow>
          let s1 = s\<lparr>latest_fast_exam :=
                       (latest_fast_exam s)(exam_case_id fast_exam \<mapsto> fast_exam)\<rparr>;
              cid = exam_case_id fast_exam
          in (case (if cid \<in> dom (latest_vitals s1)
                    then call_process_case fromiso fromisoformat predict cid s1
                    else (None, s1)) of
                (Some e, s2) \<Rightarrow> (Some e, s2)
              | (None, s2) \<Rightarrow>
                  if cid \<noteq> [] then call_process_case fromiso fromisoformat predict cid s2
                  else (None, s2))
      | CapacityMsg None \<Rightarrow> (None, s)
      | CapacityMsg (Some capacity) \<Rightarrow>
          (None,
           s\<lparr>latest_capacity :=
               filter (\<lambda>c. hospital_id c \<noteq> hospital_id capacity) (latest_capacity s)
                 @ [capacity]\<rparr>))"

text \<open>
  The loop of \<open>run\<close> over the messages polled so far, in arrival order. \<open>run\<close> catches
  \<open>KeyboardInterrupt\<close> only: an exception from the loop body ends the loop, and the
  messages after it are not handled. The result is that exception, if any, and the
  state the loop leaves.
\<close>

fun run ::
  "(string \<Rightarrow> real option) \<Rightarrow> (string \<Rightarrow> datetime option)
     \<Rightarrow> (nat \<Rightarrow> AiPredictionRequest \<Rightarrow> real \<times> real) \<Rightarrow> Message list
     \<Rightarrow> StreamProcessor \<Rightarrow> py_error option \<times> StreamProcessor" where
  "run fromiso fromisoformat predict [] s = (None, s)"
| "run fromiso fromisoformat predict (msg # msgs) s =
     (case handle_message fromiso fromisoformat predict msg s of
        (Some e, s') \<Rightarrow> (Some e, s')
      | (None, s') \<Rightarrow> run fromiso fromisoformat predict msgs s')"

subsection \<open>The circuit breaker (\<open>circuit_breaker.py\<close>)\<close>

datatype CircuitState = CLOSED | OPEN | HALF_OPEN

record CircuitBreakerConfig =
  failure_threshold :: int
  success_threshold :: int
  timeout :: real

record CircuitBreaker =
  name :: string
  config :: CircuitBreakerConfig
  state :: CircuitState
  failure_count :: int
  success_count :: int
  last_failure_time :: "real option"

text \<open>\<open>CircuitBreaker.__init__\<close>.\<close>

definition init_breaker :: "string \<Rightarrow> CircuitBreakerConfig \<Rightarrow> CircuitBreaker" where
  "init_breaker nm cfg =
     \<lparr> name = nm, config = cfg, state = CLOSED, failure_count = 0, success_count = 0,
       last_failure_time = None \<rparr>"

text \<open>
  The result of \<open>CircuitBreaker.call\<close>: the wrapped function's value, the exception it
  raised (re-raised by \<open>call\<close>), or the breaker's own \<open>CircuitBreakerOpenError\<close>.
\<close>

datatype ('e, 'a) call_result = CircuitBreakerOpenError | Raised 'e | Returned 'a

text \<open>
  \<open>_should_attempt_reset\<close>; \<open>now\<close> is the value of \<open>time.time()\<close> read there.
\<close>

definition should_attempt_reset :: "real \<Rightarrow> CircuitBreaker \<Rightarrow> bool" where
  "should_attempt_reset now cb =
     (case last_failure_time cb of
        None \<Rightarrow> True
      | Some t \<Rightarrow> now - t \<ge> timeout (config cb))"

definition on_success :: "CircuitBreaker \<Rightarrow> CircuitBreaker" where
  "on_success cb =
     (if state cb = HALF_OPEN then
        (let cb1 = cb\<lparr>success_count := success_count cb + 1\<rparr>
         in if success_count cb1 \<ge> success_threshold (config cb1)
            then cb1\<lparr>state := CLOSED, failure_count := 0, success_count := 0\<rparr>
            else cb1)
      else cb\<lparr>failure_count := 0\<rparr>)"

text \<open>\<open>_on_failure\<close>; \<open>now\<close> is the value of \<open>time.time()\<close> read there.\<close>

definition on_failure :: "real \<Rightarrow> CircuitBreaker \<Rightarrow> CircuitBreaker" where
  "on_failure now cb =
     (let cb1 = cb\<lparr>failure_count := failure_count cb + 1, last_failure_time := Some now\<rparr>
      in if state cb1 = HALF_OPEN then cb1\<lparr>state := OPEN, success_count := 0\<rparr>
         else if failure_count cb1 \<ge> failure_threshold (config cb1) then cb1\<lparr>state := OPEN\<rparr>
         else cb1)"

text \<open>
  \<open>CircuitBreaker.call\<close>. The wrapped function acts on the world outside the breaker:
  \<open>func w\<close> is its result (\<open>Inl\<close> an exception, \<open>Inr\<close> a value) and the world it leaves.
  \<open>clock\<close> reads \<open>time.time()\<close> off the world. A call that is rejected returns the world it
  was given, whatever \<open>func\<close> is: the wrapped function is not run.
\<close>

definition call ::
  "('w \<Rightarrow> real) \<Rightarrow> CircuitBreaker \<Rightarrow> ('w \<Rightarrow> ('e + 'a) \<times> 'w) \<Rightarrow> 'w
     \<Rightarrow> ('e, 'a) call_result \<times> CircuitBreaker \<times> 'w" where
  "call clock cb func w =
     (case (if state cb = OPEN then
              (if should_attempt_reset (clock w) cb
               then Some (cb\<lparr>state := HALF_OPEN, success_count := 0\<rparr>)
               else None)
            else Some cb) of
        None \<Rightarrow> (CircuitBreakerOpenError, cb, w)
      | Some cb1 \<Rightarrow>
          (case func w of
             (Inr result, w') \<Rightarrow> (Returned result, on_success cb1, w')
           | (Inl e, w') \<Rightarrow> (Raised e, on_failure (clock w') cb1, w')))"

text \<open>Successive calls through one breaker, each with its own wrapped function.\<close>

fun calls ::
  "('w \<Rightarrow> real) \<Rightarrow> CircuitBreaker \<Rightarrow> ('w \<Rightarrow> ('e + 'a) \<times> 'w) list \<Rightarrow> 'w
     \<Rightarrow> ('e, 'a) call_result list \<times> CircuitBreaker \<times> 'w" where
  "calls clock cb [] w = ([], cb, w)"
| "calls clock cb (func # funcs) w =
     (case call clock cb func w of
        (r, cb', w') \<Rightarrow>
          (case calls clock cb' funcs w' of (rs, cb'', w'') \<Rightarrow> (r # rs, cb'', w'')))"

text \<open>
  A wrapped function that counts its own invocations: the world is paired with a counter
  which every run of the function increments.
\<close>

definition counted :: "('w \<Rightarrow> ('e + 'a) \<times> 'w) \<Rightarrow> nat \<times> 'w \<Rightarrow> ('e + 'a) \<times> (nat \<times> 'w)" where
  "counted func nw = (case func (snd nw) of (r, w') \<Rightarrow> (r, (Suc (fst nw), w')))"

definition succeeds :: "('w \<Rightarrow> ('e + 'a) \<times> 'w) \<Rightarrow> bool" where
  "succeeds func = (\<forall>w. \<not> isl (fst (func w)))"

definition fails :: "('w \<Rightarrow> ('e + 'a) \<times> 'w) \<Rightarrow> bool" where
  "fails func = (\<forall>w. isl (fst (func w)))"

text \<open>The breaker that \<open>get_vertex_ai_breaker\<close> creates.\<close>

definition vertex_ai_config :: CircuitBreakerConfig where
  "vertex_ai_config = \<lparr> failure_threshold = 3, success_threshold = 2, timeout = 30.0 \<rparr>"

definition get_vertex_ai_breaker :: CircuitBreaker where
  "get_vertex_ai_breaker = init_breaker ''vertex_ai'' vertex_ai_config"

text \<open>
  Two wrapped operations for concrete runs, on a world that is just the clock: a service
  that answers after one second, and one that raises after one second.
\<close>

definition service_up :: "real \<Rightarrow> (string + nat) \<times> real" where
  "service_up w = (Inr 7, w + 1)"

definition service_down :: "real \<Rightarrow> (string + nat) \<times> real" where
  "service_down w = (Inl ''ValueError'', w + 1)"

text \<open>The Vertex AI breaker after three failures in a row, the last one at time 3.\<close>

definition tripped_breaker :: CircuitBreaker where
  "tripped_breaker =
     get_vertex_ai_breaker\<lparr>state := OPEN, failure_count := 3, last_failure_time := Some 3\<rparr>"

text \<open>
  The two halves of \<open>CircuitBreaker.call\<close>, for callers whose calls overlap. \<open>admit\<close> is
  the check at the head of \<open>call\<close>: \<open>None\<close> when it raises \<open>CircuitBreakerOpenError\<close>,
  otherwise the breaker as the wrapped function finds it. \<open>settle\<close> is the bookkeeping
  after the wrapped function has returned or raised. The breaker keeps no record of calls
  that have been admitted and have not settled.
\<close>

definition admit :: "real \<Rightarrow> CircuitBreaker \<Rightarrow> CircuitBreaker option" where
  "admit now cb =
     (if state cb = OPEN then
        (if should_attempt_reset now cb
         then Some (cb\<lparr>state := HALF_OPEN, success_count := 0\<rparr>)
         else None)
      else Some cb)"

definition settle :: "real \<Rightarrow> 'e + 'a \<Rightarrow> CircuitBreaker \<Rightarrow> CircuitBreaker" where
  "settle now r cb = (case r of Inr result \<Rightarrow> on_success cb | Inl e \<Rightarrow> on_failure now cb)"

text \<open>Events for concrete runs: readings and a screening result of one case, hospitals.\<close>

definition example_vitals :: EmsVitalsEvent where
  "example_vitals =
     \<lparr> vitals_case_id = ''CASE-1'', vitals_patient_id = ''PAT-1'', vitals_ems_unit_id = ''EMS-1'',
       vitals_event_ts = ''2024-01-01T12:00:00Z'', vitals_sequence_number = 1,
       vitals_heart_rate_bpm = Some 88, vitals_systolic_bp_mmHg = Some 185,
       vitals_diastolic_bp_mmHg = Some 95, vitals_respiratory_rate_bpm = Some 18,
       vitals_spo2_pct = Some 96, vitals_temperature_c = None, vitals_gcs_total = Some 12,
       vitals_blood_glucose_mg_dL = Some 110, vitals_ecg_rhythm = Some ''normal'',
       vitals_is_artifact_suspected = False, vitals_source_device = None \<rparr>"

definition example_vitals_update :: EmsVitalsEvent where
  "example_vitals_update =
     example_vitals\<lparr>vitals_event_ts := ''2024-01-01T12:01:00Z'', vitals_sequence_number := 2,
                    vitals_heart_rate_bpm := Some 92\<rparr>"

text \<open>The same update with a time stamp that has no UTC offset.\<close>

definition example_vitals_naive :: EmsVitalsEvent where
  "example_vitals_naive = example_vitals_update\<lparr>vitals_event_ts := ''2024-01-01T12:01:00''\<rparr>"

definition example_fast_exam :: EmsFastExamEvent where
  "example_fast_exam =
     \<lparr> exam_case_id = ''CASE-1'', exam_patient_id = ''PAT-1'', exam_ems_unit_id = ''EMS-1'',
       exam_ts = ''2024-01-01T11:58:00Z'', face_droop = ''PRESENT'', arm_weakness = ''LEFT'',
       speech_difficulty = ''DYSARTHRIA'', symptom_onset_ts = Some ''2024-01-01T11:15:00Z'',
       last_known_well_ts = Some ''2024-01-01T11:00:00Z'', prestroke_disability = None,
       suspected_stroke_side = Some ''LEFT'', exam_fast_score = Some 3,
       exam_ems_suspected_stroke = True, exam_notes = None \<rparr>"

definition example_primary :: HospitalCapacityEvent where
  "example_primary =
     \<lparr> hospital_id = ''HOSP-P'', hospital_name = ''Primary Stroke Center'',
       updated_ts = ''2024-01-01T11:50:00Z'', latitude = 0, longitude = 0,
       stroke_center_level = ''PRIMARY'', has_ct_available = True, has_cta_available = False,
       can_perform_mechanical_thrombectomy = False, ed_crowding_score = Some 40,
       current_stroke_cases_in_ed = Some 1, accepting_acute_stroke_now = True,
       estimated_additional_door_to_needle_minutes = Some 10, hospital_notes = None \<rparr>"

definition example_comprehensive :: HospitalCapacityEvent where
  "example_comprehensive =
     example_primary\<lparr>hospital_id := ''HOSP-C'', hospital_name := ''Comprehensive Stroke Center'',
                     stroke_center_level := ''COMPREHENSIVE'', has_cta_available := True,
                     can_perform_mechanical_thrombectomy := True,
                     estimated_additional_door_to_needle_minutes := Some 20\<rparr>"

text \<open>A comprehensive centre whose capacity record arrives with an empty identifier.\<close>

definition example_comprehensive_no_id :: HospitalCapacityEvent where
  "example_comprehensive_no_id = example_comprehensive\<lparr>hospital_id := []\<rparr>"

text \<open>A trend timestamp parser for concrete runs: it knows none of the strings.\<close>

definition no_clock :: "string \<Rightarrow> real option" where
  "no_clock ts = None"

text \<open>
  The processor's parser on the time stamps of the example events, in seconds since the
  midnight before them; the last string has no UTC offset and parses to a naive datetime.
\<close>

definition example_fromisoformat :: "string \<Rightarrow> datetime option" where
  "example_fromisoformat ts =
     (if ts = ''2024-01-01T11:00:00Z'' then Some \<lparr>tz_aware = True, dt_seconds = 39600\<rparr>
      else if ts = ''2024-01-01T11:15:00Z'' then Some \<lparr>tz_aware = True, dt_seconds = 40500\<rparr>
      else if ts = ''2024-01-01T12:00:00Z'' then Some \<lparr>tz_aware = True, dt_seconds = 43200\<rparr>
      else if ts = ''2024-01-01T12:01:00Z'' then Some \<lparr>tz_aware = True, dt_seconds = 43260\<rparr>
      else if ts = ''2024-01-01T12:01:00'' then Some \<lparr>tz_aware = False, dt_seconds = 43260\<rparr>
      else None)"

text \<open>
  The state invariant of the loop, which also holds in the state an exception leaves
  behind: every case marked as processed has a published prediction, and every case
  with a published prediction has a current reading and a current screening result.
\<close>

definition consistent :: "StreamProcessor \<Rightarrow> bool" where
  "consistent s \<longleftrightarrow>
     processed_cases s \<subseteq> pred_case_id ` set (published s) \<and>
     (\<forall>p \<in> set (published s).
        latest_vitals s (pred_case_id p) \<noteq> None \<and>
        latest_fast_exam s (pred_case_id p) \<noteq> None)"

text \<open>The four tracked vitals, and the rate and direction fields of each.\<close>

datatype Vital = HeartRate | SystolicPressure | OxygenSaturation | ConsciousnessScore

fun rate_of :: "Vital \<Rightarrow> TrendFeatures \<Rightarrow> real option" where
  "rate_of HeartRate features = hr_rate_of_change features"
| "rate_of SystolicPressure features = bp_rate_of_change features"
| "rate_of OxygenSaturation features = spo2_rate_of_change features"
| "rate_of ConsciousnessScore features = gcs_rate_of_change features"

fun trend_of :: "Vital \<Rightarrow> TrendFeatures \<Rightarrow> int option" where
  "trend_of HeartRate features = hr_trend features"
| "trend_of SystolicPressure features = bp_trend features"
| "trend_of OxygenSaturation features = spo2_trend features"
| "trend_of ConsciousnessScore features = gcs_trend features"

text \<open>
  The weight of a point of time \<open>t\<close> when the latest point is at \<open>latest_time\<close>:
  \<open>exp (- ageMinutes / 2)\<close>.
\<close>

definition recency_weight :: "real \<Rightarrow> real \<Rightarrow> real" where
  "recency_weight latest_time t = exp (- ((latest_time - t) / 60) / 2)"

text \<open>
  The recency-weighted delta as the specification words it, over all points of the vital
  in the window: the weighted average of the values minus the earliest value.
\<close>

definition spec_recent_change :: "(real \<times> real) list \<Rightarrow> real option" where
  "spec_recent_change window =
     (if length window < 2 then None
      else
        let pts = sort_key fst window;
            latest_time = fst (last pts)
        in Some (sum_list (map (\<lambda>p. snd p * recency_weight latest_time (fst p)) pts)
                   / sum_list (map (\<lambda>p. recency_weight latest_time (fst p)) pts)
                 - snd (hd pts)))"

text \<open>A history for concrete runs: oxygen saturation and heart rate both fall over one minute.\<close>

definition falling_history :: "VitalSnapshot list" where
  "falling_history =
     [\<lparr> snap_timestamp = ''t0'', snap_heart_rate_bpm = Some 90, snap_systolic_bp_mmHg = None,
         snap_diastolic_bp_mmHg = None, snap_spo2_pct = Some 97, snap_gcs_total = Some 15 \<rparr>,
      \<lparr> snap_timestamp = ''t1'', snap_heart_rate_bpm = Some 84, snap_systolic_bp_mmHg = None,
         snap_diastolic_bp_mmHg = None, snap_spo2_pct = Some 91, snap_gcs_total = Some 15 \<rparr>]"

definition falling_analyzer :: TrendAnalyzer where
  "falling_analyzer =
     \<lparr> max_history_size = 20, vital_history = [''CASE-1'' \<mapsto> falling_history] \<rparr>"

text \<open>A timestamp parser for concrete runs: \<open>t0\<close> is the epoch and \<open>t1\<close> one minute later.\<close>

definition minute_clock :: "string \<Rightarrow> real option" where
  "minute_clock ts = (if ts = ''t0'' then Some 0 else if ts = ''t1'' then Some 60 else None)"

section \<open>Verified properties\<close>

subsection \<open>Risk categorisation\<close>

text \<open>
  C4. Risk categorisation depends on the pair (stroke probability, LVO probability) only:
  it is CRITICAL iff stroke \<ge> 0.8 or lvo \<ge> 0.6; HIGH iff that fails and stroke \<ge> 0.6 or
  lvo \<ge> 0.4; MODERATE iff both fail and stroke \<ge> 0.3; LOW iff all three tests fail. At
  stroke = 0.82, lvo = 0.1 the category is CRITICAL.
\<close>

theorem categorize_risk_thresholds:
  "(categorize_risk s l = ''CRITICAL'' \<longleftrightarrow> (s \<ge> 0.8 \<or> l \<ge> 0.6)) \<and>
   (categorize_risk s l = ''HIGH'' \<longleftrightarrow> (s < 0.8 \<and> l < 0.6 \<and> (s \<ge> 0.6 \<or> l \<ge> 0.4))) \<and>
   (categorize_risk s l = ''MODERATE'' \<longleftrightarrow> (s < 0.6 \<and> l < 0.4 \<and> s \<ge> 0.3)) \<and>
   (categorize_risk s l = ''LOW'' \<longleftrightarrow> (s < 0.3 \<and> l < 0.4)) \<and>
   categorize_risk 0.82 0.1 = ''CRITICAL''"
  by (auto simp: categorize_risk_def)

subsection \<open>The heuristic predictor\<close>

lemma clamp01_range: "0 \<le> clamp01 x \<and> clamp01 x \<le> 1"
  by (simp add: clamp01_def)

text \<open>
  C10. For every prediction request the heuristic predictor returns a pair of
  probabilities that both lie in [0, 1], and equal requests give equal results.
\<close>

theorem heuristic_predict_range:
  "0 \<le> fst (heuristic_predict request) \<and> fst (heuristic_predict request) \<le> 1 \<and>
   0 \<le> snd (heuristic_predict request) \<and> snd (heuristic_predict request) \<le> 1 \<and>
   (\<forall>request'. request' = request \<longrightarrow> heuristic_predict request' = heuristic_predict request)"
  by (simp add: heuristic_predict_def clamp01_range split: prod.splits)

theorem heuristic_predict_range_witness:
  "heuristic_predict example_request = (1, 0.4)"
  using heuristic_predict_range [of example_request]
  by (simp add: heuristic_predict_def example_request_def bp_step_def gcs_step_def
      time_window_step_def speech_step_def arm_weakness_step_def face_droop_step_def
      fast_score_step_def clamp01_def heuristic_constants)

subsection \<open>The circuit breaker\<close>

lemma fails_Inl: "fails f \<Longrightarrow> \<exists>e w'. f w = (Inl e, w')"
  unfolding fails_def by (metis isl_def prod.collapse)

lemma succeeds_Inr: "succeeds f \<Longrightarrow> \<exists>v w'. f w = (Inr v, w')"
  unfolding succeeds_def by (metis isl_def sum.exhaust_sel sum.collapse(2) prod.collapse)

lemma call_rejects:
  "state cb = OPEN \<Longrightarrow> last_failure_time cb = Some t \<Longrightarrow> clock w - t < timeout (config cb)
   \<Longrightarrow> call clock cb func w = (CircuitBreakerOpenError, cb, w)"
  by (simp add: call_def should_attempt_reset_def)

lemma call_closed_success:
  "state cb = CLOSED \<Longrightarrow> func w = (Inr v, w') \<Longrightarrow>
   call clock cb func w = (Returned v, cb\<lparr>failure_count := 0\<rparr>, w')"
  by (simp add: call_def on_success_def)

lemma call_closed_failure:
  "state cb = CLOSED \<Longrightarrow> func w = (Inl e, w') \<Longrightarrow>
   call clock cb func w =
     (Raised e,
      cb\<lparr>failure_count := failure_count cb + 1, last_failure_time := Some (clock w'),
         state := (if failure_count cb + 1 \<ge> failure_threshold (config cb)
                   then OPEN else CLOSED)\<rparr>, w')"
  by (simp add: call_def on_failure_def Let_def)

lemma call_half_open_success:
  "state cb = HALF_OPEN \<Longrightarrow> func w = (Inr v, w') \<Longrightarrow>
   call clock cb func w =
     (Returned v,
      (if success_count cb + 1 \<ge> success_threshold (config cb)
       then cb\<lparr>state := CLOSED, failure_count := 0, success_count := 0\<rparr>
       else cb\<lparr>success_count := success_count cb + 1\<rparr>), w')"
  by (simp add: call_def on_success_def Let_def)

lemma call_half_open_failure:
  "state cb = HALF_OPEN \<Longrightarrow> func w = (Inl e, w') \<Longrightarrow>
   call clock cb func w =
     (Raised e,
      cb\<lparr>failure_count := failure_count cb + 1, last_failure_time := Some (clock w'),
         state := OPEN, success_count := 0\<rparr>, w')"
  by (simp add: call_def on_failure_def Let_def)

lemma call_open_probe:
  "state cb = OPEN \<Longrightarrow> last_failure_time cb = Some t \<Longrightarrow> clock w - t \<ge> timeout (config cb) \<Longrightarrow>
   call clock cb func w = call clock (cb\<lparr>state := HALF_OPEN, success_count := 0\<rparr>) func w"
  by (simp add: call_def should_attempt_reset_def)

lemma counted_rejected:
  "call clock cb func w = (CircuitBreakerOpenError, cb', w') \<Longrightarrow>
   fst (snd (snd (call (clock \<circ> snd) cb (counted func) (n, w)))) = n"
  by (auto simp: call_def counted_def split: if_splits option.splits prod.splits sum.splits)

lemma counted_admitted:
  "fst (call clock cb func w) \<noteq> CircuitBreakerOpenError \<Longrightarrow>
   fst (snd (snd (call (clock \<circ> snd) cb (counted func) (n, w)))) = Suc n"
  by (auto simp: call_def counted_def split: if_splits option.splits prod.splits sum.splits)

lemma fails_closed_run:
  "state cb = CLOSED \<Longrightarrow> \<forall>f \<in> set funcs. fails f \<Longrightarrow>
   failure_count cb + int (length funcs) < failure_threshold (config cb) \<Longrightarrow>
   calls clock cb funcs w = (rs, cb', w') \<Longrightarrow>
   state cb' = CLOSED \<and> failure_count cb' = failure_count cb + int (length funcs)
     \<and> config cb' = config cb"
proof (induction funcs arbitrary: cb w rs)
  case Nil
  then show ?case by simp
next
  case (Cons f funcs)
  from Cons.prems(2) have ff: "fails f" by simp
  obtain e w1 where fw: "f w = (Inl e, w1)" using fails_Inl[OF ff, of w] by blast
  let ?cb1 = "cb\<lparr>failure_count := failure_count cb + 1, last_failure_time := Some (clock w1),
         state := (if failure_count cb + 1 \<ge> failure_threshold (config cb) then OPEN else CLOSED)\<rparr>"
  have c1: "call clock cb f w = (Raised e, ?cb1, w1)"
    by (rule call_closed_failure[where func=f and w=w, OF Cons.prems(1) fw])
  have st1: "state ?cb1 = CLOSED" using Cons.prems(3) by simp
  obtain rs2 where rest: "calls clock ?cb1 funcs w1 = (rs2, cb', w')"
    using Cons.prems(4) c1 by (auto split: prod.splits)
  have "state cb' = CLOSED \<and> failure_count cb' = failure_count ?cb1 + int (length funcs)
          \<and> config cb' = config ?cb1"
    using Cons.IH[OF st1 _ _ rest] Cons.prems(2,3) by simp
  then show ?case by simp
qed

lemma calls_snoc:
  "calls clock cb (funcs @ [f]) w =
     (case calls clock cb funcs w of
        (rs, cb1, w1) \<Rightarrow> (case call clock cb1 f w1 of (r, cb2, w2) \<Rightarrow> (rs @ [r], cb2, w2)))"
  by (induction funcs arbitrary: cb w) (auto split: prod.splits)

lemma fails_closed_trip:
  assumes "state cb = CLOSED" and "\<forall>f \<in> set funcs. fails f" and "funcs \<noteq> []"
    and "failure_count cb + int (length funcs) = failure_threshold (config cb)"
    and "calls clock cb funcs w = (rs, cb', w')"
  shows "state cb' = OPEN \<and> last_failure_time cb' = Some (clock w')
           \<and> failure_count cb' = failure_threshold (config cb) \<and> config cb' = config cb"
proof -
  obtain fs f where funcs: "funcs = fs @ [f]" using assms(3) by (metis rev_exhaust)
  obtain rs1 cb1 w1 where pre: "calls clock cb fs w = (rs1, cb1, w1)" by (metis prod_cases3)
  have allf: "\<forall>g \<in> set fs. fails g" and ff: "fails f" using assms(2) funcs by auto
  have lt: "failure_count cb + int (length fs) < failure_threshold (config cb)"
    using assms(4) funcs by simp
  have mid: "state cb1 = CLOSED \<and> failure_count cb1 = failure_count cb + int (length fs)
               \<and> config cb1 = config cb"
    by (rule fails_closed_run[OF assms(1) allf lt pre])
  obtain e w2 where fw: "f w1 = (Inl e, w2)" using fails_Inl[OF ff, of w1] by blast
  have mid1: "state cb1 = CLOSED" using mid by simp
  have c: "call clock cb1 f w1 =
      (Raised e, cb1\<lparr>failure_count := failure_count cb1 + 1,
                      last_failure_time := Some (clock w2), state := OPEN\<rparr>, w2)"
    using call_closed_failure[where func=f and w=w1 and clock=clock, OF mid1 fw]
      mid assms(4) funcs by simp
  have "calls clock cb funcs w =
          (rs1 @ [Raised e], cb1\<lparr>failure_count := failure_count cb1 + 1,
                      last_failure_time := Some (clock w2), state := OPEN\<rparr>, w2)"
    unfolding funcs calls_snoc pre using c by simp
  with assms(5) show ?thesis using mid assms(4) funcs by auto
qed

lemma succeeds_half_open_run:
  "state cb = HALF_OPEN \<Longrightarrow> \<forall>f \<in> set funcs. succeeds f \<Longrightarrow>
   success_count cb + int (length funcs) < success_threshold (config cb) \<Longrightarrow>
   calls clock cb funcs w = (rs, cb', w') \<Longrightarrow>
   state cb' = HALF_OPEN \<and> success_count cb' = success_count cb + int (length funcs)
     \<and> config cb' = config cb"
proof (induction funcs arbitrary: cb w rs)
  case Nil
  then show ?case by simp
next
  case (Cons f funcs)
  from Cons.prems(2) have sf: "succeeds f" by simp
  obtain v w1 where fw: "f w = (Inr v, w1)" using succeeds_Inr[OF sf, of w] by blast
  let ?cb1 = "cb\<lparr>success_count := success_count cb + 1\<rparr>"
  have c1: "call clock cb f w = (Returned v, ?cb1, w1)"
    using call_half_open_success[where func=f and w=w and clock=clock, OF Cons.prems(1) fw]
      Cons.prems(3) by simp
  have st1: "state ?cb1 = HALF_OPEN" using Cons.prems(1) by simp
  obtain rs2 where rest: "calls clock ?cb1 funcs w1 = (rs2, cb', w')"
    using Cons.prems(4) c1 by (auto split: prod.splits)
  have "state cb' = HALF_OPEN \<and> success_count cb' = success_count ?cb1 + int (length funcs)
          \<and> config cb' = config ?cb1"
    using Cons.IH[OF st1 _ _ rest] Cons.prems(2,3) by simp
  then show ?case by simp
qed

lemma succeeds_half_open_close:
  assumes "state cb = HALF_OPEN" and "\<forall>f \<in> set funcs. succeeds f" and "funcs \<noteq> []"
    and "success_count cb + int (length funcs) = success_threshold (config cb)"
    and "calls clock cb funcs w = (rs, cb', w')"
  shows "state cb' = CLOSED \<and> failure_count cb' = 0 \<and> success_count cb' = 0"
proof -
  obtain fs f where funcs: "funcs = fs @ [f]" using assms(3) by (metis rev_exhaust)
  obtain rs1 cb1 w1 where pre: "calls clock cb fs w = (rs1, cb1, w1)" by (metis prod_cases3)
  have alls: "\<forall>g \<in> set fs. succeeds g" and sf: "succeeds f" using assms(2) funcs by auto
  have lt: "success_count cb + int (length fs) < success_threshold (config cb)"
    using assms(4) funcs by simp
  have mid: "state cb1 = HALF_OPEN \<and> success_count cb1 = success_count cb + int (length fs)
               \<and> config cb1 = config cb"
    by (rule succeeds_half_open_run[OF assms(1) alls lt pre])
  obtain v w2 where fw: "f w1 = (Inr v, w2)" using succeeds_Inr[OF sf, of w1] by blast
  have mid1: "state cb1 = HALF_OPEN" using mid by simp
  have c: "call clock cb1 f w1 =
      (Returned v, cb1\<lparr>state := CLOSED, failure_count := 0, success_count := 0\<rparr>, w2)"
    using call_half_open_success[where func=f and w=w1 and clock=clock, OF mid1 fw]
      mid assms(4) funcs by simp
  have "calls clock cb funcs w =
          (rs1 @ [Returned v], cb1\<lparr>state := CLOSED, failure_count := 0, success_count := 0\<rparr>, w2)"
    unfolding funcs calls_snoc pre using c by simp
  with assms(5) show ?thesis by auto
qed

lemma calls_open_probe:
  assumes "state cb = OPEN" and "last_failure_time cb = Some t"
    and "clock w - t \<ge> timeout (config cb)" and "funcs \<noteq> []"
  shows "calls clock cb funcs w =
         calls clock (cb\<lparr>state := HALF_OPEN, success_count := 0\<rparr>) funcs w"
  using assms by (cases funcs) (simp_all add: call_open_probe[where t=t])

lemmas breaker_eval =
  get_vertex_ai_breaker_def init_breaker_def vertex_ai_config_def service_up_def
  service_down_def call_def on_success_def on_failure_def should_attempt_reset_def
  fails_def succeeds_def counted_def tripped_breaker_def Let_def

text \<open>
  C7. In the Closed state a successful call resets the consecutive-failure counter to 0
  and a failed call increments it and records the failure time; when the counter reaches
  \<open>failure_threshold\<close> the breaker opens: a run of \<open>failure_threshold\<close> failing calls from
  a fresh counter ends Open with the time of the last failure recorded, a shorter run
  stays Closed. While Open and before \<open>timeout\<close> has elapsed since the last failure, a
  call returns the breaker-open error, leaves breaker and world as they were, and does not
  run the wrapped operation (its invocation counter is unchanged).
\<close>

theorem closed_counts_failures_open_rejects:
  fixes cb :: CircuitBreaker and func func_next :: "'w \<Rightarrow> ('e + 'a) \<times> 'w"
  shows
  "(state cb = CLOSED \<and> func w = (Inr v, w') \<longrightarrow>
      call clock cb func w = (Returned v, cb\<lparr>failure_count := 0\<rparr>, w')) \<and>
   (state cb = CLOSED \<and> func w = (Inl e, w') \<longrightarrow>
      call clock cb func w =
        (Raised e,
         cb\<lparr>failure_count := failure_count cb + 1, last_failure_time := Some (clock w'),
            state := (if failure_count cb + 1 \<ge> failure_threshold (config cb)
                      then OPEN else CLOSED)\<rparr>, w')) \<and>
   (state cb = CLOSED \<and> failure_count cb = 0 \<and> (\<forall>f \<in> set funcs. fails f) \<and>
    calls clock cb funcs w = (rs, cb', w'') \<longrightarrow>
      (int (length funcs) < failure_threshold (config cb) \<longrightarrow>
         state cb' = CLOSED \<and> failure_count cb' = int (length funcs)) \<and>
      (funcs \<noteq> [] \<and> int (length funcs) = failure_threshold (config cb) \<longrightarrow>
         state cb' = OPEN \<and> last_failure_time cb' = Some (clock w'') \<and>
         (clock wnext - clock w'' < timeout (config cb) \<longrightarrow>
            call clock cb' func_next wnext = (CircuitBreakerOpenError, cb', wnext)))) \<and>
   (state cb = OPEN \<and> last_failure_time cb = Some t \<and> clock w - t < timeout (config cb) \<longrightarrow>
      call clock cb func w = (CircuitBreakerOpenError, cb, w) \<and>
      fst (snd (snd (call (clock \<circ> snd) cb (counted func) (n, w)))) = n)"
proof (intro conjI impI)
  assume "state cb = CLOSED \<and> func w = (Inr v, w')"
  then show "call clock cb func w = (Returned v, cb\<lparr>failure_count := 0\<rparr>, w')"
    by (simp add: call_closed_success)
next
  assume "state cb = CLOSED \<and> func w = (Inl e, w')"
  then show "call clock cb func w =
        (Raised e,
         cb\<lparr>failure_count := failure_count cb + 1, last_failure_time := Some (clock w'),
            state := (if failure_count cb + 1 \<ge> failure_threshold (config cb)
                      then OPEN else CLOSED)\<rparr>, w')"
    using call_closed_failure[where func=func and w=w and cb=cb and clock=clock] by blast
next
  assume a: "state cb = CLOSED \<and> failure_count cb = 0 \<and> (\<forall>f \<in> set funcs. fails f) \<and>
    calls clock cb funcs w = (rs, cb', w'')"
    and b: "int (length funcs) < failure_threshold (config cb)"
  show "state cb' = CLOSED" "failure_count cb' = int (length funcs)"
    using fails_closed_run[where cb=cb and funcs=funcs and clock=clock and w=w] a b by auto
next
  assume a: "state cb = CLOSED \<and> failure_count cb = 0 \<and> (\<forall>f \<in> set funcs. fails f) \<and>
    calls clock cb funcs w = (rs, cb', w'')"
    and b: "funcs \<noteq> [] \<and> int (length funcs) = failure_threshold (config cb)"
  have trip: "state cb' = OPEN \<and> last_failure_time cb' = Some (clock w'')
           \<and> failure_count cb' = failure_threshold (config cb) \<and> config cb' = config cb"
    using fails_closed_trip[where cb=cb and funcs=funcs and clock=clock and w=w] a b by auto
  then show "state cb' = OPEN" "last_failure_time cb' = Some (clock w'')" by simp_all
  assume "clock wnext - clock w'' < timeout (config cb)"
  then show "call clock cb' func_next wnext = (CircuitBreakerOpenError, cb', wnext)"
    using trip by (simp add: call_rejects)
next
  assume a: "state cb = OPEN \<and> last_failure_time cb = Some t \<and> clock w - t < timeout (config cb)"
  then show r: "call clock cb func w = (CircuitBreakerOpenError, cb, w)"
    by (simp add: call_rejects)
  show "fst (snd (snd (call (clock \<circ> snd) cb (counted func) (n, w)))) = n"
    by (rule counted_rejected[OF r])
qed

theorem closed_counts_failures_open_rejects_witness:
  "call (\<lambda>w. w) get_vertex_ai_breaker service_up 0
     = (Returned 7, get_vertex_ai_breaker, 1) \<and>
   call (\<lambda>w. w) get_vertex_ai_breaker service_down 0
     = (Raised ''ValueError'',
        get_vertex_ai_breaker\<lparr>failure_count := 1, last_failure_time := Some 1\<rparr>, 1) \<and>
   snd (calls (\<lambda>w. w) get_vertex_ai_breaker [service_down, service_down] 0)
     = (get_vertex_ai_breaker\<lparr>failure_count := 2, last_failure_time := Some 2\<rparr>, 2) \<and>
   snd (calls (\<lambda>w. w) get_vertex_ai_breaker [service_down, service_down, service_down] 0)
     = (tripped_breaker, 3) \<and>
   call (\<lambda>w. w) tripped_breaker service_up 10 = (CircuitBreakerOpenError, tripped_breaker, 10) \<and>
   fst (snd (snd (call ((\<lambda>w. w) \<circ> snd) tripped_breaker (counted service_up) (0, 10)))) = 0"
  using
    closed_counts_failures_open_rejects[where cb=get_vertex_ai_breaker and func=service_up
      and w=0 and v=7 and w'=1 and clock="\<lambda>w. w" and funcs="[service_down, service_down]"
      and rs="[Raised ''ValueError'', Raised ''ValueError'']"
      and cb'="get_vertex_ai_breaker\<lparr>failure_count := 2, last_failure_time := Some 2\<rparr>"
      and w''=2]
    closed_counts_failures_open_rejects[where cb=get_vertex_ai_breaker and func=service_down
      and w=0 and e="''ValueError''" and w'=1 and clock="\<lambda>w. w"
      and funcs="[service_down, service_down, service_down]"
      and rs="[Raised ''ValueError'', Raised ''ValueError'', Raised ''ValueError'']"
      and cb'=tripped_breaker and w''=3 and wnext=10 and func_next=service_up]
    closed_counts_failures_open_rejects[where cb=tripped_breaker and func=service_up
      and w=10 and t=3 and clock="\<lambda>w. w" and n=0]
  by (simp add: breaker_eval)

lemma call_admit_settle:
  "call clock cb func w =
     (case admit (clock w) cb of
        None \<Rightarrow> (CircuitBreakerOpenError, cb, w)
      | Some cb1 \<Rightarrow>
          (case func w of
             (r, w1) \<Rightarrow>
               ((case r of Inl e \<Rightarrow> Raised e | Inr v \<Rightarrow> Returned v),
                settle (clock w1) r cb1, w1)))"
  by (simp add: call_def admit_def settle_def split: option.splits prod.splits sum.splits)

text \<open>
  C2, as amended. A call that finds the breaker Open with at least \<open>timeout\<close> elapsed since
  the last failure moves it to HalfOpen with the success counter reset and runs the
  wrapped operation exactly once; if that probe fails the breaker is Open again and the
  next call within \<open>timeout\<close> of that failure is rejected. Admission looks at the state
  only: a call that finds the breaker HalfOpen is always let through, also while the probe
  has not settled, so the calls in flight are not limited to one; calls made one after
  the other each settle before the next is admitted. In HalfOpen a success increments the
  success counter and closes the breaker, with both counters reset, when the counter
  reaches \<open>success_threshold\<close>; any failure moves the breaker straight back to Open. From
  Open after the timeout, \<open>success_threshold\<close> successful calls in a row end Closed with
  both counters 0, and fewer leave it HalfOpen.
\<close>

theorem open_probe_half_open_transitions:
  fixes cb :: CircuitBreaker and func func_next :: "'w \<Rightarrow> ('e + 'a) \<times> 'w"
  shows
  "(state cb = OPEN \<and> last_failure_time cb = Some t \<and> clock w - t \<ge> timeout (config cb) \<longrightarrow>
      call clock cb func w = call clock (cb\<lparr>state := HALF_OPEN, success_count := 0\<rparr>) func w \<and>
      fst (snd (snd (call (clock \<circ> snd) cb (counted func) (n, w)))) = Suc n \<and>
      (func w = (Inl e, w') \<and> clock wnext - clock w' < timeout (config cb) \<longrightarrow>
         state (fst (snd (call clock cb func w))) = OPEN \<and>
         call clock (fst (snd (call clock cb func w))) func_next wnext =
           (CircuitBreakerOpenError, fst (snd (call clock cb func w)), wnext))) \<and>
   (state cb = HALF_OPEN \<and> func w = (Inr v, w') \<longrightarrow>
      call clock cb func w =
        (Returned v,
         (if success_count cb + 1 \<ge> success_threshold (config cb)
          then cb\<lparr>state := CLOSED, failure_count := 0, success_count := 0\<rparr>
          else cb\<lparr>success_count := success_count cb + 1\<rparr>), w')) \<and>
   (state cb = HALF_OPEN \<and> func w = (Inl e, w') \<longrightarrow>
      call clock cb func w =
        (Raised e,
         cb\<lparr>failure_count := failure_count cb + 1, last_failure_time := Some (clock w'),
            state := OPEN, success_count := 0\<rparr>, w')) \<and>
   (state cb = OPEN \<and> last_failure_time cb = Some t \<and> clock w - t \<ge> timeout (config cb) \<and>
    (\<forall>f \<in> set funcs. succeeds f) \<and> funcs \<noteq> [] \<and>
    calls clock cb funcs w = (rs, cb', w'') \<longrightarrow>
      (int (length funcs) < success_threshold (config cb) \<longrightarrow>
         state cb' = HALF_OPEN \<and> success_count cb' = int (length funcs)) \<and>
      (int (length funcs) = success_threshold (config cb) \<longrightarrow>
         state cb' = CLOSED \<and> failure_count cb' = 0 \<and> success_count cb' = 0)) \<and>
   call clock cb func w =
     (case admit (clock w) cb of
        None \<Rightarrow> (CircuitBreakerOpenError, cb, w)
      | Some cb1 \<Rightarrow>
          (case func w of
             (r, w1) \<Rightarrow>
               ((case r of Inl e \<Rightarrow> Raised e | Inr v \<Rightarrow> Returned v),
                settle (clock w1) r cb1, w1))) \<and>
   (state cb = OPEN \<and> last_failure_time cb = Some t \<and> now - t \<ge> timeout (config cb) \<longrightarrow>
      admit now cb = Some (cb\<lparr>state := HALF_OPEN, success_count := 0\<rparr>) \<and>
      admit later (cb\<lparr>state := HALF_OPEN, success_count := 0\<rparr>)
        = Some (cb\<lparr>state := HALF_OPEN, success_count := 0\<rparr>)) \<and>
   (state cb = OPEN \<and> last_failure_time cb = Some t \<and> now - t < timeout (config cb) \<longrightarrow>
      admit now cb = None) \<and>
   (state cb = HALF_OPEN \<longrightarrow> admit now cb = Some cb)"
proof (intro conjI impI)
  assume a: "state cb = OPEN \<and> last_failure_time cb = Some t \<and> clock w - t \<ge> timeout (config cb)"
  then show p: "call clock cb func w
                  = call clock (cb\<lparr>state := HALF_OPEN, success_count := 0\<rparr>) func w"
    using call_open_probe[where cb=cb and t=t and clock=clock and w=w] by blast
  have "fst (call clock cb func w) \<noteq> CircuitBreakerOpenError"
    using a by (auto simp: call_def should_attempt_reset_def split: prod.splits sum.splits)
  then show "fst (snd (snd (call (clock \<circ> snd) cb (counted func) (n, w)))) = Suc n"
    by (rule counted_admitted)
  assume b: "func w = (Inl e, w') \<and> clock wnext - clock w' < timeout (config cb)"
  have c: "call clock cb func w =
        (Raised e,
         cb\<lparr>failure_count := failure_count cb + 1, last_failure_time := Some (clock w'),
            state := OPEN, success_count := 0\<rparr>, w')"
    unfolding p using b
      call_half_open_failure[where cb="cb\<lparr>state := HALF_OPEN, success_count := 0\<rparr>"
        and func=func and w=w and e=e and w'=w' and clock=clock]
    by simp
  show "state (fst (snd (call clock cb func w))) = OPEN" unfolding c by simp
  show "call clock (fst (snd (call clock cb func w))) func_next wnext =
           (CircuitBreakerOpenError, fst (snd (call clock cb func w)), wnext)"
    unfolding c using b by (simp add: call_rejects)
next
  assume "state cb = HALF_OPEN \<and> func w = (Inr v, w')"
  then show "call clock cb func w =
        (Returned v,
         (if success_count cb + 1 \<ge> success_threshold (config cb)
          then cb\<lparr>state := CLOSED, failure_count := 0, success_count := 0\<rparr>
          else cb\<lparr>success_count := success_count cb + 1\<rparr>), w')"
    using call_half_open_success[where cb=cb and func=func and w=w and clock=clock] by blast
next
  assume "state cb = HALF_OPEN \<and> func w = (Inl e, w')"
  then show "call clock cb func w =
        (Raised e,
         cb\<lparr>failure_count := failure_count cb + 1, last_failure_time := Some (clock w'),
            state := OPEN, success_count := 0\<rparr>, w')"
    using call_half_open_failure[where cb=cb and func=func and w=w and clock=clock] by blast
next
  assume a: "state cb = OPEN \<and> last_failure_time cb = Some t \<and> clock w - t \<ge> timeout (config cb) \<and>
    (\<forall>f \<in> set funcs. succeeds f) \<and> funcs \<noteq> [] \<and>
    calls clock cb funcs w = (rs, cb', w'')"
    and b: "int (length funcs) < success_threshold (config cb)"
  let ?h = "cb\<lparr>state := HALF_OPEN, success_count := 0\<rparr>"
  have run: "calls clock ?h funcs w = (rs, cb', w'')"
    using a calls_open_probe[where cb=cb and t=t and clock=clock and w=w and funcs=funcs]
    by simp
  show "state cb' = HALF_OPEN" "success_count cb' = int (length funcs)"
    using succeeds_half_open_run[where cb="?h" and funcs=funcs and clock=clock and w=w,
        OF _ _ _ run] a b by auto
next
  assume a: "state cb = OPEN \<and> last_failure_time cb = Some t \<and> clock w - t \<ge> timeout (config cb) \<and>
    (\<forall>f \<in> set funcs. succeeds f) \<and> funcs \<noteq> [] \<and>
    calls clock cb funcs w = (rs, cb', w'')"
    and b: "int (length funcs) = success_threshold (config cb)"
  let ?h = "cb\<lparr>state := HALF_OPEN, success_count := 0\<rparr>"
  have run: "calls clock ?h funcs w = (rs, cb', w'')"
    using a calls_open_probe[where cb=cb and t=t and clock=clock and w=w and funcs=funcs]
    by simp
  show "state cb' = CLOSED" "failure_count cb' = 0" "success_count cb' = 0"
    using succeeds_half_open_close[where cb="?h" and funcs=funcs and clock=clock and w=w,
        OF _ _ _ _ run] a b by auto
next
  show "call clock cb func w =
     (case admit (clock w) cb of
        None \<Rightarrow> (CircuitBreakerOpenError, cb, w)
      | Some cb1 \<Rightarrow>
          (case func w of
             (r, w1) \<Rightarrow>
               ((case r of Inl e \<Rightarrow> Raised e | Inr v \<Rightarrow> Returned v),
                settle (clock w1) r cb1, w1)))"
    by (rule call_admit_settle)
next
  assume "state cb = OPEN \<and> last_failure_time cb = Some t \<and> now - t \<ge> timeout (config cb)"
  then show "admit now cb = Some (cb\<lparr>state := HALF_OPEN, success_count := 0\<rparr>)"
    by (simp add: admit_def should_attempt_reset_def)
  show "admit later (cb\<lparr>state := HALF_OPEN, success_count := 0\<rparr>)
        = Some (cb\<lparr>state := HALF_OPEN, success_count := 0\<rparr>)"
    by (simp add: admit_def)
next
  assume "state cb = OPEN \<and> last_failure_time cb = Some t \<and> now - t < timeout (config cb)"
  then show "admit now cb = None"
    by (simp add: admit_def should_attempt_reset_def)
next
  assume "state cb = HALF_OPEN"
  then show "admit now cb = Some cb" by (simp add: admit_def)
qed

theorem open_probe_half_open_transitions_witness:
  "call (\<lambda>w. w) tripped_breaker service_up 40
     = (Returned 7, tripped_breaker\<lparr>state := HALF_OPEN, success_count := 1\<rparr>, 41) \<and>
   fst (snd (snd (call ((\<lambda>w. w) \<circ> snd) tripped_breaker (counted service_up) (0, 40)))) = 1 \<and>
   call (\<lambda>w. w) tripped_breaker service_down 40
     = (Raised ''ValueError'',
        tripped_breaker\<lparr>failure_count := 4, last_failure_time := Some 41\<rparr>, 41) \<and>
   fst (call (\<lambda>w. w) (tripped_breaker\<lparr>failure_count := 4, last_failure_time := Some 41\<rparr>)
          service_up 50) = CircuitBreakerOpenError \<and>
   call (\<lambda>w. w) (tripped_breaker\<lparr>state := HALF_OPEN, success_count := 1\<rparr>) service_up 41
     = (Returned 7, get_vertex_ai_breaker\<lparr>last_failure_time := Some 3\<rparr>, 42) \<and>
   call (\<lambda>w. w) (tripped_breaker\<lparr>state := HALF_OPEN, success_count := 1\<rparr>) service_down 41
     = (Raised ''ValueError'',
        tripped_breaker\<lparr>failure_count := 4, last_failure_time := Some 42\<rparr>, 42) \<and>
   snd (calls (\<lambda>w. w) tripped_breaker [service_up] 40)
     = (tripped_breaker\<lparr>state := HALF_OPEN, success_count := 1\<rparr>, 41) \<and>
   snd (calls (\<lambda>w. w) tripped_breaker [service_up, service_up] 40)
     = (get_vertex_ai_breaker\<lparr>last_failure_time := Some 3\<rparr>, 42) \<and>
   admit 40 tripped_breaker = Some (tripped_breaker\<lparr>state := HALF_OPEN\<rparr>) \<and>
   admit 20 tripped_breaker = None \<and>
   admit 41 (tripped_breaker\<lparr>state := HALF_OPEN, success_count := 1\<rparr>)
     = Some (tripped_breaker\<lparr>state := HALF_OPEN, success_count := 1\<rparr>)"
  using
    open_probe_half_open_transitions[where cb=tripped_breaker and func=service_up
      and w=40 and t=3 and clock="\<lambda>w. w" and n=0 and now=40 and later=41
      and funcs="[service_up]"
      and rs="[Returned 7]"
      and cb'="tripped_breaker\<lparr>state := HALF_OPEN, success_count := 1\<rparr>" and w''=41]
    open_probe_half_open_transitions[where cb=tripped_breaker and func=service_down
      and w=40 and t=3 and clock="\<lambda>w. w" and n=0 and e="''ValueError''" and w'=41
      and wnext=50 and func_next=service_up and funcs="[service_up, service_up]"
      and rs="[Returned 7, Returned 7]"
      and cb'="get_vertex_ai_breaker\<lparr>last_failure_time := Some 3\<rparr>" and w''=42]
    open_probe_half_open_transitions[
      where cb="tripped_breaker\<lparr>state := HALF_OPEN, success_count := 1\<rparr>"
      and func=service_up and w=41 and v=7 and w'=42 and clock="\<lambda>w. w"]
    open_probe_half_open_transitions[
      where cb="tripped_breaker\<lparr>state := HALF_OPEN, success_count := 1\<rparr>"
      and func=service_down and w=41 and e="''ValueError''" and w'=42 and clock="\<lambda>w. w"
      and now=41]
    open_probe_half_open_transitions[where cb=tripped_breaker and func=service_up
      and w=40 and t=3 and clock="\<lambda>w. w" and now=20]
  by (simp add: breaker_eval admit_def settle_def)

theorem second_call_admitted_before_probe_settles_counterexample:
  "state tripped_breaker = OPEN \<and>
   admit 40 tripped_breaker = Some (tripped_breaker\<lparr>state := HALF_OPEN\<rparr>) \<and>
   admit 40 (tripped_breaker\<lparr>state := HALF_OPEN\<rparr>)
     = Some (tripped_breaker\<lparr>state := HALF_OPEN\<rparr>) \<and>
   admit 40 (tripped_breaker\<lparr>state := HALF_OPEN\<rparr>) \<noteq> None"
  by (simp add: breaker_eval admit_def settle_def)

subsection \<open>The processor\<close>

lemma minutes_between_cases:
  "minutes_between fromisoformat start end_ts = Inl TypeError \<or>
   (\<exists>m. minutes_between fromisoformat start end_ts = Inr m)"
  by (auto simp: minutes_between_def split: option.splits)

lemma build_prediction_request_cases:
  "build_prediction_request fromisoformat vitals (Some fast_exam) caps = Inl TypeError \<or>
   (\<exists>request. build_prediction_request fromisoformat vitals (Some fast_exam) caps
                 = Inr (Some request)
              \<and> patient_id request = vitals_patient_id vitals)"
  using minutes_between_cases[of fromisoformat "symptom_onset_ts fast_exam"
          "Some (vitals_event_ts vitals)"]
        minutes_between_cases[of fromisoformat "last_known_well_ts fast_exam"
          "Some (vitals_event_ts vitals)"]
  by (auto simp: build_prediction_request_def Let_def)

lemma build_prediction_request_raises_iff:
  "build_prediction_request fromisoformat vitals (Some fast_exam) caps = Inl TypeError \<longleftrightarrow>
   minutes_between fromisoformat (symptom_onset_ts fast_exam) (Some (vitals_event_ts vitals))
     = Inl TypeError \<or>
   minutes_between fromisoformat (last_known_well_ts fast_exam) (Some (vitals_event_ts vitals))
     = Inl TypeError"
  using minutes_between_cases[of fromisoformat "symptom_onset_ts fast_exam"
          "Some (vitals_event_ts vitals)"]
        minutes_between_cases[of fromisoformat "last_known_well_ts fast_exam"
          "Some (vitals_event_ts vitals)"]
  by (auto simp: build_prediction_request_def Let_def)

lemma process_case_skips:
  "cid \<in> processed_cases s \<or> latest_vitals s cid = None \<or> latest_fast_exam s cid = None
   \<Longrightarrow> process_case fromiso fromisoformat predict cid s = Inr s"
  by (auto simp: process_case_def split: option.splits)

lemma process_case_raises:
  assumes "cid \<notin> processed_cases s" and "latest_vitals s cid = Some vitals"
    and "latest_fast_exam s cid = Some fast_exam"
    and "build_prediction_request fromisoformat vitals (Some fast_exam) (latest_capacity s)
           = Inl e"
  shows "process_case fromiso fromisoformat predict cid s = Inl e"
  using assms by (simp add: process_case_def)

lemma process_case_emits:
  assumes "cid \<notin> processed_cases s" and "latest_vitals s cid = Some vitals"
    and "latest_fast_exam s cid = Some fast_exam"
    and r: "build_prediction_request fromisoformat vitals (Some fast_exam) (latest_capacity s)
           = Inr (Some request)"
  shows "\<exists>p. process_case fromiso fromisoformat predict cid s =
               Inr (s\<lparr>published := published s @ [p],
                      processed_cases := insert cid (processed_cases s)\<rparr>)
             \<and> pred_case_id p = cid \<and> current_vitals p = Some vitals"
proof -
  obtain sp lp where
    t: "trend_adjust (calculate_trends fromiso (trend_analyzer s) cid)
          (predict (length (published s)) request) = (sp, lp)"
    by (cases "trend_adjust (calculate_trends fromiso (trend_analyzer s) cid)
          (predict (length (published s)) request)")
  obtain h ty tr dtn where c: "choose_hospital request (latest_capacity s) = (h, ty, tr, dtn)"
    by (metis prod_cases4)
  let ?p = "\<lparr> pred_case_id = cid, pred_patient_id = patient_id request,
              stroke_probability = sp, lvo_probability = lp,
              risk_category = categorize_risk sp lp,
              recommended_destination_hospital_id = h, recommended_destination_type = ty,
              estimated_travel_min_to_recommended = tr,
              estimated_additional_door_to_needle_min_at_recommended = dtn,
              pred_minutes_since_symptom_onset = minutes_since_symptom_onset request,
              current_vitals = Some vitals \<rparr>"
  have "process_case fromiso fromisoformat predict cid s =
          Inr (s\<lparr>published := published s @ [?p],
                 processed_cases := insert cid (processed_cases s)\<rparr>)"
    using assms t c by (simp add: process_case_def Let_def)
  moreover have "pred_case_id ?p = cid \<and> current_vitals ?p = Some vitals" by simp
  ultimately show ?thesis by blast
qed

lemma process_case_cases:
  "process_case fromiso fromisoformat predict cid s = Inr s \<or>
   (\<exists>vitals fast_exam. cid \<notin> processed_cases s \<and> latest_vitals s cid = Some vitals \<and>
      latest_fast_exam s cid = Some fast_exam \<and>
      build_prediction_request fromisoformat vitals (Some fast_exam) (latest_capacity s)
        = Inl TypeError \<and>
      process_case fromiso fromisoformat predict cid s = Inl TypeError) \<or>
   (\<exists>p vitals fast_exam. cid \<notin> processed_cases s \<and> latest_vitals s cid = Some vitals \<and>
      latest_fast_exam s cid = Some fast_exam \<and>
      process_case fromiso fromisoformat predict cid s =
               Inr (s\<lparr>published := published s @ [p],
                      processed_cases := insert cid (processed_cases s)\<rparr>)
             \<and> pred_case_id p = cid \<and> current_vitals p = Some vitals)"
proof (cases "cid \<in> processed_cases s \<or> latest_vitals s cid = None \<or> latest_fast_exam s cid = None")
  case True
  then show ?thesis using process_case_skips by blast
next
  case False
  then obtain vitals fast_exam where a: "cid \<notin> processed_cases s"
    "latest_vitals s cid = Some vitals" "latest_fast_exam s cid = Some fast_exam" by auto
  from build_prediction_request_cases[of fromisoformat vitals fast_exam "latest_capacity s"]
  show ?thesis
  proof
    assume "build_prediction_request fromisoformat vitals (Some fast_exam) (latest_capacity s)
              = Inl TypeError"
    then show ?thesis using a process_case_raises[OF a, of fromisoformat TypeError fromiso predict]
      by blast
  next
    assume "\<exists>request. build_prediction_request fromisoformat vitals (Some fast_exam)
                        (latest_capacity s) = Inr (Some request)
              \<and> patient_id request = vitals_patient_id vitals"
    then obtain request where
      "build_prediction_request fromisoformat vitals (Some fast_exam) (latest_capacity s)
         = Inr (Some request)" by blast
    from process_case_emits[OF a this, of fromiso predict] a show ?thesis by blast
  qed
qed

text \<open>What a call from the loop leaves behind.\<close>

lemma call_process_case_cases:
  "call_process_case fromiso fromisoformat predict cid s = (None, s) \<or>
   (call_process_case fromiso fromisoformat predict cid s = (Some TypeError, s) \<and>
    cid \<notin> processed_cases s \<and> latest_vitals s cid \<noteq> None \<and> latest_fast_exam s cid \<noteq> None) \<or>
   (\<exists>p vitals. cid \<notin> processed_cases s \<and> latest_vitals s cid = Some vitals \<and>
      latest_fast_exam s cid \<noteq> None \<and>
      call_process_case fromiso fromisoformat predict cid s =
        (None, s\<lparr>published := published s @ [p],
                 processed_cases := insert cid (processed_cases s)\<rparr>)
      \<and> pred_case_id p = cid \<and> current_vitals p = Some vitals)"
  using process_case_cases[of fromiso fromisoformat predict cid s]
proof (elim disjE exE conjE)
  fix p vitals fast_exam
  assume "cid \<notin> processed_cases s" "latest_vitals s cid = Some vitals"
    "latest_fast_exam s cid = Some fast_exam"
    "process_case fromiso fromisoformat predict cid s =
       Inr (s\<lparr>published := published s @ [p],
              processed_cases := insert cid (processed_cases s)\<rparr>)"
    "pred_case_id p = cid" "current_vitals p = Some vitals"
  then show ?thesis
    by (intro disjI2 exI[of _ p] exI[of _ vitals]) (simp add: call_process_case_def)
qed (simp_all add: call_process_case_def)

lemma call_process_case_frame:
  "latest_vitals (snd (call_process_case fromiso fromisoformat predict cid s)) = latest_vitals s"
  "latest_fast_exam (snd (call_process_case fromiso fromisoformat predict cid s))
     = latest_fast_exam s"
  "latest_capacity (snd (call_process_case fromiso fromisoformat predict cid s))
     = latest_capacity s"
  "trend_analyzer (snd (call_process_case fromiso fromisoformat predict cid s))
     = trend_analyzer s"
  using call_process_case_cases[of fromiso fromisoformat predict cid s]
  by (elim disjE exE conjE; simp)+

lemma call_process_case_twice:
  assumes "call_process_case fromiso fromisoformat predict cid s = (None, s')"
  shows "call_process_case fromiso fromisoformat predict cid s' = (None, s')"
proof -
  from call_process_case_cases[of fromiso fromisoformat predict cid s] assms
  consider "s' = s"
    | "cid \<in> processed_cases s'"
    by (elim disjE exE conjE) auto
  then show ?thesis
  proof cases
    case 1
    with assms show ?thesis by simp
  next
    case 2
    then show ?thesis
      by (simp add: call_process_case_def process_case_skips)
  qed
qed

lemma consistent_init: "consistent init_processor"
  by (simp add: consistent_def init_processor_def)

lemma consistentD:
  assumes "consistent s"
  shows "\<And>c. c \<in> processed_cases s \<Longrightarrow> \<exists>p \<in> set (published s). pred_case_id p = c"
    and "\<And>p. p \<in> set (published s) \<Longrightarrow> latest_vitals s (pred_case_id p) \<noteq> None"
    and "\<And>p. p \<in> set (published s) \<Longrightarrow> latest_fast_exam s (pred_case_id p) \<noteq> None"
    and "\<And>c. c \<in> processed_cases s \<Longrightarrow> latest_fast_exam s c \<noteq> None"
proof -
  from assms have sub: "processed_cases s \<subseteq> pred_case_id ` set (published s)"
    and ex: "\<forall>p \<in> set (published s).
        latest_vitals s (pred_case_id p) \<noteq> None \<and>
        latest_fast_exam s (pred_case_id p) \<noteq> None"
    unfolding consistent_def by simp_all
  show a: "\<And>c. c \<in> processed_cases s \<Longrightarrow> \<exists>p \<in> set (published s). pred_case_id p = c"
    using sub by (metis imageE subsetD)
  show "\<And>p. p \<in> set (published s) \<Longrightarrow> latest_vitals s (pred_case_id p) \<noteq> None"
    using ex by blast
  show b: "\<And>p. p \<in> set (published s) \<Longrightarrow> latest_fast_exam s (pred_case_id p) \<noteq> None"
    using ex by blast
  show "\<And>c. c \<in> processed_cases s \<Longrightarrow> latest_fast_exam s c \<noteq> None"
    using a b by metis
qed

lemma consistentI:
  assumes "\<And>c. c \<in> processed_cases s \<Longrightarrow> \<exists>p \<in> set (published s). pred_case_id p = c"
    and "\<And>p. p \<in> set (published s) \<Longrightarrow> latest_vitals s (pred_case_id p) \<noteq> None"
    and "\<And>p. p \<in> set (published s) \<Longrightarrow> latest_fast_exam s (pred_case_id p) \<noteq> None"
  shows "consistent s"
proof -
  have "processed_cases s \<subseteq> pred_case_id ` set (published s)"
    using assms(1) by (auto simp: image_iff)
  then show ?thesis unfolding consistent_def using assms(2,3) by blast
qed

lemma consistent_emit:
  assumes "consistent s" and "latest_vitals s (pred_case_id p) \<noteq> None"
    and "latest_fast_exam s (pred_case_id p) \<noteq> None"
  shows "consistent (s\<lparr>published := published s @ [p],
                        processed_cases := insert (pred_case_id p) (processed_cases s)\<rparr>)"
proof (rule consistentI)
  let ?s' = "s\<lparr>published := published s @ [p],
               processed_cases := insert (pred_case_id p) (processed_cases s)\<rparr>"
  fix c assume "c \<in> processed_cases ?s'"
  then have c: "c = pred_case_id p \<or> c \<in> processed_cases s" by auto
  then show "\<exists>q \<in> set (published ?s'). pred_case_id q = c"
    using consistentD(1)[OF assms(1)] by fastforce
next
  let ?s' = "s\<lparr>published := published s @ [p],
               processed_cases := insert (pred_case_id p) (processed_cases s)\<rparr>"
  fix q assume "q \<in> set (published ?s')"
  then have q: "q = p \<or> q \<in> set (published s)" by auto
  from q show "latest_vitals ?s' (pred_case_id q) \<noteq> None"
    using consistentD(2)[OF assms(1)] assms(2) by auto
  from q show "latest_fast_exam ?s' (pred_case_id q) \<noteq> None"
    using consistentD(3)[OF assms(1)] assms(3) by auto
qed

lemma consistent_latest_vitals:
  assumes "consistent s"
  shows "consistent (s\<lparr>latest_vitals := (latest_vitals s)(c \<mapsto> v)\<rparr>)"
  using consistentD(1-3)[OF assms] by (intro consistentI) auto

lemma consistent_latest_fast_exam:
  assumes "consistent s"
  shows "consistent (s\<lparr>latest_fast_exam := (latest_fast_exam s)(c \<mapsto> f)\<rparr>)"
  using consistentD(1-3)[OF assms] by (intro consistentI) auto

lemma consistent_latest_capacity:
  assumes "consistent s"
  shows "consistent (s\<lparr>latest_capacity := caps\<rparr>)"
  using consistentD(1-3)[OF assms] by (intro consistentI) auto

lemma consistent_discard:
  assumes "consistent s"
  shows "consistent (s\<lparr>processed_cases := processed_cases s - {c}\<rparr>)"
  using consistentD(1-3)[OF assms] by (intro consistentI) auto

lemma call_process_case_consistent:
  assumes "consistent s"
  shows "consistent (snd (call_process_case fromiso fromisoformat predict cid s))"
proof -
  from call_process_case_cases[of fromiso fromisoformat predict cid s]
  consider "snd (call_process_case fromiso fromisoformat predict cid s) = s"
    | p where "latest_vitals s cid \<noteq> None" "latest_fast_exam s cid \<noteq> None"
        "pred_case_id p = cid"
        "snd (call_process_case fromiso fromisoformat predict cid s) =
               s\<lparr>published := published s @ [p],
                 processed_cases := insert cid (processed_cases s)\<rparr>"
    by (elim disjE exE conjE) auto
  then show ?thesis
  proof cases
    case 1
    with assms show ?thesis by simp
  next
    case 2
    show ?thesis using consistent_emit[OF assms, of p] 2 by simp
  qed
qed

lemma handle_message_vitals:
  "handle_message fromiso fromisoformat predict (VitalsMsg (Some vitals)) s =
     call_process_case fromiso fromisoformat predict (vitals_case_id vitals)
       (s\<lparr>latest_vitals := (latest_vitals s)(vitals_case_id vitals \<mapsto> vitals),
          processed_cases := processed_cases s - {vitals_case_id vitals}\<rparr>)"
proof (cases "vitals_case_id vitals \<in> processed_cases s")
  case True
  then show ?thesis by (simp add: handle_message_def Let_def)
next
  case False
  then have "processed_cases s - {vitals_case_id vitals} = processed_cases s" by auto
  with False show ?thesis by (simp add: handle_message_def Let_def)
qed

lemma handle_message_fast_exam:
  "handle_message fromiso fromisoformat predict (FastExamMsg (Some fast_exam)) s =
     call_process_case fromiso fromisoformat predict (exam_case_id fast_exam)
       (s\<lparr>latest_fast_exam := (latest_fast_exam s)(exam_case_id fast_exam \<mapsto> fast_exam)\<rparr>)"
proof -
  let ?cid = "exam_case_id fast_exam"
  let ?s1 = "s\<lparr>latest_fast_exam := (latest_fast_exam s)(?cid \<mapsto> fast_exam)\<rparr>"
  let ?r = "call_process_case fromiso fromisoformat predict ?cid ?s1"
  have absent: "?cid \<notin> dom (latest_vitals s) \<Longrightarrow> ?r = (None, ?s1)"
    by (simp add: call_process_case_def process_case_skips domIff)
  obtain eo s2 where r: "?r = (eo, s2)" by (cases ?r)
  have twice: "eo = None \<Longrightarrow>
      call_process_case fromiso fromisoformat predict ?cid s2 = (None, s2)"
    using call_process_case_twice[of fromiso fromisoformat predict ?cid ?s1 s2] r by simp
  show ?thesis
  proof (cases "?cid \<in> dom (latest_vitals s)")
    case True
    show ?thesis
    proof (cases eo)
      case None
      with True r twice show ?thesis
        by (cases "?cid = []") (simp_all add: handle_message_def Let_def)
    next
      case (Some e)
      with True r show ?thesis by (simp add: handle_message_def Let_def)
    qed
  next
    case False
    from absent[OF False] False show ?thesis
      by (cases "?cid = []") (simp_all add: handle_message_def Let_def)
  qed
qed

lemma handle_message_consistent:
  assumes "consistent s"
  shows "consistent (snd (handle_message fromiso fromisoformat predict msg s))"
proof (cases msg)
  case (VitalsMsg vo)
  show ?thesis
  proof (cases vo)
    case None
    with VitalsMsg assms show ?thesis by (simp add: handle_message_def)
  next
    case (Some vitals)
    have "consistent (s\<lparr>latest_vitals := (latest_vitals s)(vitals_case_id vitals \<mapsto> vitals)\<rparr>
                       \<lparr>processed_cases := processed_cases s - {vitals_case_id vitals}\<rparr>)"
      using consistent_discard[OF consistent_latest_vitals[OF assms]] by simp
    then show ?thesis
      unfolding VitalsMsg Some handle_message_vitals
      using call_process_case_consistent by simp
  qed
next
  case (FastExamMsg fo)
  show ?thesis
  proof (cases fo)
    case None
    with FastExamMsg assms show ?thesis by (simp add: handle_message_def)
  next
    case (Some fast_exam)
    show ?thesis
      unfolding FastExamMsg Some handle_message_fast_exam
      by (rule call_process_case_consistent[OF consistent_latest_fast_exam[OF assms]])
  qed
next
  case (CapacityMsg co)
  show ?thesis
  proof (cases co)
    case None
    with CapacityMsg assms show ?thesis by (simp add: handle_message_def)
  next
    case (Some capacity)
    show ?thesis
      unfolding CapacityMsg Some
      using consistent_latest_capacity[OF assms] by (simp add: handle_message_def)
  qed
qed

lemma run_consistent:
  "consistent s \<Longrightarrow> consistent (snd (run fromiso fromisoformat predict msgs s))"
proof (induction msgs arbitrary: s)
  case Nil
  then show ?case by simp
next
  case (Cons msg msgs)
  obtain eo s' where h: "handle_message fromiso fromisoformat predict msg s = (eo, s')"
    by (cases "handle_message fromiso fromisoformat predict msg s")
  have c: "consistent s'"
    using handle_message_consistent[OF Cons.prems, of fromiso fromisoformat predict msg] h
    by simp
  show ?case
  proof (cases eo)
    case None
    with h Cons.IH[OF c] show ?thesis by simp
  next
    case (Some e)
    with h c show ?thesis by simp
  qed
qed

lemma handle_message_trend_analyzer:
  "trend_analyzer (snd (handle_message fromiso fromisoformat predict msg s)) = trend_analyzer s"
proof (cases msg)
  case (VitalsMsg vo)
  show ?thesis
  proof (cases vo)
    case None
    with VitalsMsg show ?thesis by (simp add: handle_message_def)
  next
    case (Some vitals)
    with VitalsMsg show ?thesis
      by (simp add: handle_message_vitals call_process_case_frame)
  qed
next
  case (FastExamMsg fo)
  show ?thesis
  proof (cases fo)
    case None
    with FastExamMsg show ?thesis by (simp add: handle_message_def)
  next
    case (Some fast_exam)
    with FastExamMsg show ?thesis
      by (simp add: handle_message_fast_exam call_process_case_frame)
  qed
next
  case (CapacityMsg co)
  then show ?thesis by (cases co) (simp_all add: handle_message_def)
qed

lemma handle_message_dom_vitals:
  "dom (latest_vitals (snd (handle_message fromiso fromisoformat predict msg s))) =
     dom (latest_vitals s) \<union> {vitals_case_id v |v. msg = VitalsMsg (Some v)}"
proof (cases msg)
  case (VitalsMsg vo)
  show ?thesis
  proof (cases vo)
    case None
    with VitalsMsg show ?thesis by (simp add: handle_message_def)
  next
    case (Some vitals)
    with VitalsMsg show ?thesis
      by (auto simp: handle_message_vitals call_process_case_frame)
  qed
next
  case (FastExamMsg fo)
  show ?thesis
  proof (cases fo)
    case None
    with FastExamMsg show ?thesis by (simp add: handle_message_def)
  next
    case (Some fast_exam)
    with FastExamMsg show ?thesis
      by (auto simp: handle_message_fast_exam call_process_case_frame)
  qed
next
  case (CapacityMsg co)
  then show ?thesis by (cases co) (simp_all add: handle_message_def)
qed

lemma handle_message_dom_fast_exam:
  "dom (latest_fast_exam (snd (handle_message fromiso fromisoformat predict msg s))) =
     dom (latest_fast_exam s) \<union> {exam_case_id f |f. msg = FastExamMsg (Some f)}"
proof (cases msg)
  case (VitalsMsg vo)
  show ?thesis
  proof (cases vo)
    case None
    with VitalsMsg show ?thesis by (simp add: handle_message_def)
  next
    case (Some vitals)
    with VitalsMsg show ?thesis
      by (auto simp: handle_message_vitals call_process_case_frame)
  qed
next
  case (FastExamMsg fo)
  show ?thesis
  proof (cases fo)
    case None
    with FastExamMsg show ?thesis by (simp add: handle_message_def)
  next
    case (Some fast_exam)
    with FastExamMsg show ?thesis
      by (auto simp: handle_message_fast_exam call_process_case_frame)
  qed
next
  case (CapacityMsg co)
  then show ?thesis by (cases co) (simp_all add: handle_message_def)
qed

lemma run_trend_analyzer:
  "trend_analyzer (snd (run fromiso fromisoformat predict msgs s)) = trend_analyzer s"
proof (induction msgs arbitrary: s)
  case Nil
  then show ?case by simp
next
  case (Cons msg msgs)
  obtain eo s' where h: "handle_message fromiso fromisoformat predict msg s = (eo, s')"
    by (cases "handle_message fromiso fromisoformat predict msg s")
  have t: "trend_analyzer s' = trend_analyzer s"
    using handle_message_trend_analyzer[of fromiso fromisoformat predict msg s] h by simp
  show ?case using h t Cons.IH[of s'] by (cases eo) simp_all
qed

lemma run_dom_vitals:
  "dom (latest_vitals (snd (run fromiso fromisoformat predict msgs s))) \<subseteq>
     dom (latest_vitals s) \<union> {vitals_case_id v |v. VitalsMsg (Some v) \<in> set msgs}"
proof (induction msgs arbitrary: s)
  case Nil
  then show ?case by simp
next
  case (Cons msg msgs)
  obtain eo s' where h: "handle_message fromiso fromisoformat predict msg s = (eo, s')"
    by (cases "handle_message fromiso fromisoformat predict msg s")
  have d: "dom (latest_vitals s') =
     dom (latest_vitals s) \<union> {vitals_case_id v |v. msg = VitalsMsg (Some v)}"
    using handle_message_dom_vitals[of fromiso fromisoformat predict msg s] h by simp
  show ?case
  proof (cases eo)
    case None
    with h d Cons.IH[of s'] show ?thesis by auto
  next
    case (Some e)
    with h d show ?thesis by auto
  qed
qed

lemma run_dom_fast_exam:
  "dom (latest_fast_exam (snd (run fromiso fromisoformat predict msgs s))) \<subseteq>
     dom (latest_fast_exam s) \<union> {exam_case_id f |f. FastExamMsg (Some f) \<in> set msgs}"
proof (induction msgs arbitrary: s)
  case Nil
  then show ?case by simp
next
  case (Cons msg msgs)
  obtain eo s' where h: "handle_message fromiso fromisoformat predict msg s = (eo, s')"
    by (cases "handle_message fromiso fromisoformat predict msg s")
  have d: "dom (latest_fast_exam s') =
     dom (latest_fast_exam s) \<union> {exam_case_id f |f. msg = FastExamMsg (Some f)}"
    using handle_message_dom_fast_exam[of fromiso fromisoformat predict msg s] h by simp
  show ?case
  proof (cases eo)
    case None
    with h d Cons.IH[of s'] show ?thesis by auto
  next
    case (Some e)
    with h d show ?thesis by auto
  qed
qed

lemma process_case_publishes_iff:
  "(\<exists>p s'. process_case fromiso fromisoformat predict cid s = Inr s' \<and>
           published s' = published s @ [p] \<and> pred_case_id p = cid) \<longleftrightarrow>
   (cid \<notin> processed_cases s \<and>
    (\<exists>vitals fast_exam.
       latest_vitals s cid = Some vitals \<and> latest_fast_exam s cid = Some fast_exam \<and>
       minutes_between fromisoformat (symptom_onset_ts fast_exam)
         (Some (vitals_event_ts vitals)) \<noteq> Inl TypeError \<and>
       minutes_between fromisoformat (last_known_well_ts fast_exam)
         (Some (vitals_event_ts vitals)) \<noteq> Inl TypeError))"
  (is "?L \<longleftrightarrow> ?R")
proof
  assume ?L
  then obtain p s' where l: "process_case fromiso fromisoformat predict cid s = Inr s'"
    "published s' = published s @ [p]" by blast
  then have ne: "process_case fromiso fromisoformat predict cid s \<noteq> Inr s" by auto
  from process_case_cases[of fromiso fromisoformat predict cid s] ne l(1)
  obtain vitals fast_exam where a: "cid \<notin> processed_cases s"
    "latest_vitals s cid = Some vitals" "latest_fast_exam s cid = Some fast_exam"
    by auto
  have "build_prediction_request fromisoformat vitals (Some fast_exam) (latest_capacity s)
          \<noteq> Inl TypeError"
    using process_case_raises[OF a, of fromisoformat TypeError fromiso predict] l(1) by auto
  then show ?R using a unfolding build_prediction_request_raises_iff by blast
next
  assume r: ?R
  then obtain vitals fast_exam where a: "cid \<notin> processed_cases s"
    "latest_vitals s cid = Some vitals" "latest_fast_exam s cid = Some fast_exam"
    and n: "build_prediction_request fromisoformat vitals (Some fast_exam) (latest_capacity s)
          \<noteq> Inl TypeError"
    unfolding build_prediction_request_raises_iff by blast
  from build_prediction_request_cases[of fromisoformat vitals fast_exam "latest_capacity s"] n
  obtain request where
    "build_prediction_request fromisoformat vitals (Some fast_exam) (latest_capacity s)
       = Inr (Some request)" by blast
  from process_case_emits[OF a this, of fromiso predict] show ?L by auto
qed

lemmas processor_eval =
  handle_message_def call_process_case_def process_case_def build_prediction_request_def
  choose_hospital_def calculate_trends_def trend_adjust_def init_processor_def
  init_trend_analyzer_def example_vitals_def example_vitals_update_def
  example_vitals_naive_def example_fast_exam_def example_primary_def
  example_comprehensive_def example_comprehensive_no_id_def no_clock_def
  example_fromisoformat_def minutes_between_def parse_iso_def empty_features_def
  truthy_int_def truthy_str_def Let_def

subsection \<open>Hospital selection\<close>


subsection \<open>Readiness and re-evaluation\<close>

text \<open>
  C3. Whatever messages the loop has handled, and whether or not it was ended by an
  exception, every published prediction belongs to a case for which a reading and a
  screening result are among those messages; a call of \<open>_process_case\<close> that publishes found
  both a current reading and a current screening result. The capacity list has no say in
  whether an evaluation proceeds: \<open>_process_case\<close> publishes a prediction for the case with
  a given capacity list iff it does so with the empty list, and with the empty list it
  publishes whenever the case is not yet processed, both events are present and the two
  time differences can be taken.
\<close>

theorem evaluation_requires_reading_and_screening:
  "(\<forall>p \<in> set (published (snd (run fromiso fromisoformat predict msgs init_processor))).
      (\<exists>v. VitalsMsg (Some v) \<in> set msgs \<and> vitals_case_id v = pred_case_id p) \<and>
      (\<exists>f. FastExamMsg (Some f) \<in> set msgs \<and> exam_case_id f = pred_case_id p)) \<and>
   (process_case fromiso fromisoformat predict cid s = Inr s' \<and>
    published s' \<noteq> published s \<longrightarrow>
      latest_vitals s cid \<noteq> None \<and> latest_fast_exam s cid \<noteq> None) \<and>
   ((\<exists>p s'. process_case fromiso fromisoformat predict cid (s\<lparr>latest_capacity := caps\<rparr>)
              = Inr s' \<and>
            published s' = published s @ [p] \<and> pred_case_id p = cid) \<longleftrightarrow>
    (\<exists>p s'. process_case fromiso fromisoformat predict cid (s\<lparr>latest_capacity := []\<rparr>)
              = Inr s' \<and>
            published s' = published s @ [p] \<and> pred_case_id p = cid)) \<and>
   (cid \<notin> processed_cases s \<and> latest_vitals s cid = Some vitals \<and>
    latest_fast_exam s cid = Some fast_exam \<and>
    minutes_between fromisoformat (symptom_onset_ts fast_exam)
      (Some (vitals_event_ts vitals)) \<noteq> Inl TypeError \<and>
    minutes_between fromisoformat (last_known_well_ts fast_exam)
      (Some (vitals_event_ts vitals)) \<noteq> Inl TypeError \<longrightarrow>
      (\<exists>p s'. process_case fromiso fromisoformat predict cid (s\<lparr>latest_capacity := []\<rparr>)
                = Inr s' \<and>
              published s' = published s @ [p] \<and> pred_case_id p = cid))"
proof (intro conjI ballI impI)
  let ?s = "snd (run fromiso fromisoformat predict msgs init_processor)"
  fix p assume p: "p \<in> set (published ?s)"
  have c: "consistent ?s" by (rule run_consistent[OF consistent_init])
  have "pred_case_id p \<in> dom (latest_vitals ?s)"
    using consistentD(2)[OF c p] by auto
  then have "pred_case_id p \<in> dom (latest_vitals init_processor) \<union>
      {vitals_case_id v |v. VitalsMsg (Some v) \<in> set msgs}"
    using run_dom_vitals[of fromiso fromisoformat predict msgs init_processor] by blast
  then show "\<exists>v. VitalsMsg (Some v) \<in> set msgs \<and> vitals_case_id v = pred_case_id p"
    by (auto simp: init_processor_def)
  have "pred_case_id p \<in> dom (latest_fast_exam ?s)"
    using consistentD(3)[OF c p] by auto
  then have "pred_case_id p \<in> dom (latest_fast_exam init_processor) \<union>
      {exam_case_id f |f. FastExamMsg (Some f) \<in> set msgs}"
    using run_dom_fast_exam[of fromiso fromisoformat predict msgs init_processor] by blast
  then show "\<exists>f. FastExamMsg (Some f) \<in> set msgs \<and> exam_case_id f = pred_case_id p"
    by (auto simp: init_processor_def)
next
  assume a: "process_case fromiso fromisoformat predict cid s = Inr s' \<and>
    published s' \<noteq> published s"
  then have "process_case fromiso fromisoformat predict cid s \<noteq> Inr s" by auto
  then have "\<not> (cid \<in> processed_cases s \<or> latest_vitals s cid = None \<or>
                latest_fast_exam s cid = None)"
    using process_case_skips[of cid s fromiso fromisoformat predict] by blast
  then show "latest_vitals s cid \<noteq> None" "latest_fast_exam s cid \<noteq> None"
    by simp_all
next
  show "(\<exists>p s'. process_case fromiso fromisoformat predict cid (s\<lparr>latest_capacity := caps\<rparr>)
              = Inr s' \<and>
            published s' = published s @ [p] \<and> pred_case_id p = cid) \<longleftrightarrow>
    (\<exists>p s'. process_case fromiso fromisoformat predict cid (s\<lparr>latest_capacity := []\<rparr>)
              = Inr s' \<and>
            published s' = published s @ [p] \<and> pred_case_id p = cid)"
    using process_case_publishes_iff[of fromiso fromisoformat predict cid
            "s\<lparr>latest_capacity := caps\<rparr>"]
          process_case_publishes_iff[of fromiso fromisoformat predict cid
            "s\<lparr>latest_capacity := []\<rparr>"]
    by simp
next
  assume "cid \<notin> processed_cases s \<and> latest_vitals s cid = Some vitals \<and>
    latest_fast_exam s cid = Some fast_exam \<and>
    minutes_between fromisoformat (symptom_onset_ts fast_exam)
      (Some (vitals_event_ts vitals)) \<noteq> Inl TypeError \<and>
    minutes_between fromisoformat (last_known_well_ts fast_exam)
      (Some (vitals_event_ts vitals)) \<noteq> Inl TypeError"
  then show "\<exists>p s'. process_case fromiso fromisoformat predict cid (s\<lparr>latest_capacity := []\<rparr>)
                = Inr s' \<and>
              published s' = published s @ [p] \<and> pred_case_id p = cid"
    using process_case_publishes_iff[of fromiso fromisoformat predict cid
            "s\<lparr>latest_capacity := []\<rparr>"]
    by simp
qed

theorem evaluation_requires_reading_and_screening_witness:
  "map pred_case_id (published (snd (run no_clock example_fromisoformat (\<lambda>n. heuristic_predict)
      [VitalsMsg (Some example_vitals), FastExamMsg (Some example_fast_exam)] init_processor)))
     = [''CASE-1''] \<and>
   published (snd (run no_clock example_fromisoformat (\<lambda>n. heuristic_predict)
      [VitalsMsg (Some example_vitals), CapacityMsg (Some example_primary)] init_processor))
     = [] \<and>
   published (snd (run no_clock example_fromisoformat (\<lambda>n. heuristic_predict)
      [FastExamMsg (Some example_fast_exam), CapacityMsg (Some example_primary)]
      init_processor)) = [] \<and>
   minutes_between example_fromisoformat (symptom_onset_ts example_fast_exam)
      (Some (vitals_event_ts example_vitals)) = Inr (Some 45)"
  using
    evaluation_requires_reading_and_screening[of no_clock example_fromisoformat
      "\<lambda>n. heuristic_predict"
      "[VitalsMsg (Some example_vitals), FastExamMsg (Some example_fast_exam)]"
      "''CASE-1''"
      "init_processor\<lparr>latest_vitals := [''CASE-1'' \<mapsto> example_vitals],
                      latest_fast_exam := [''CASE-1'' \<mapsto> example_fast_exam]\<rparr>"
      "snd (run no_clock example_fromisoformat (\<lambda>n. heuristic_predict)
        [VitalsMsg (Some example_vitals), FastExamMsg (Some example_fast_exam)] init_processor)"
      "[example_primary]" example_vitals example_fast_exam]
  by (simp add: processor_eval case_prod_beta)

text \<open>
  What a message does to a case that is marked processed, in a state the loop can reach.
  A reading removes the mark and evaluates again: either feature building raises, and
  the exception leaves the loop with the mark removed and nothing published, or exactly
  one prediction is published, for that case and from the new reading. A screening
  result and a capacity snapshot publish nothing.
\<close>

lemma process_case_ready:
  assumes "cid \<notin> processed_cases s" and "latest_vitals s cid = Some vitals"
    and "latest_fast_exam s cid = Some fast_exam"
  shows "process_case fromiso fromisoformat predict cid s = Inl TypeError \<or>
         (\<exists>p. process_case fromiso fromisoformat predict cid s =
               Inr (s\<lparr>published := published s @ [p],
                      processed_cases := insert cid (processed_cases s)\<rparr>)
             \<and> pred_case_id p = cid \<and> current_vitals p = Some vitals)"
  using build_prediction_request_cases[of fromisoformat vitals fast_exam "latest_capacity s"]
proof
  assume "build_prediction_request fromisoformat vitals (Some fast_exam) (latest_capacity s)
            = Inl TypeError"
  from process_case_raises[OF assms this] show ?thesis by blast
next
  assume "\<exists>request. build_prediction_request fromisoformat vitals (Some fast_exam)
                      (latest_capacity s) = Inr (Some request)
            \<and> patient_id request = vitals_patient_id vitals"
  then obtain request where
    "build_prediction_request fromisoformat vitals (Some fast_exam) (latest_capacity s)
       = Inr (Some request)" by blast
  from process_case_emits[OF assms this] show ?thesis by blast
qed

lemma handle_message_reading_for_processed_case:
  assumes "consistent s" and "vitals_case_id vitals \<in> processed_cases s"
  shows "handle_message fromiso fromisoformat predict (VitalsMsg (Some vitals)) s =
           (Some TypeError,
            s\<lparr>latest_vitals := (latest_vitals s)(vitals_case_id vitals \<mapsto> vitals),
              processed_cases := processed_cases s - {vitals_case_id vitals}\<rparr>) \<or>
         (\<exists>p. handle_message fromiso fromisoformat predict (VitalsMsg (Some vitals)) s =
               (None,
                s\<lparr>latest_vitals := (latest_vitals s)(vitals_case_id vitals \<mapsto> vitals),
                  published := published s @ [p]\<rparr>)
             \<and> pred_case_id p = vitals_case_id vitals \<and> current_vitals p = Some vitals)"
proof -
  let ?cid = "vitals_case_id vitals"
  let ?s2 = "s\<lparr>latest_vitals := (latest_vitals s)(?cid \<mapsto> vitals),
               processed_cases := processed_cases s - {?cid}\<rparr>"
  have ins: "insert ?cid (processed_cases s - {?cid}) = processed_cases s"
    using assms(2) by auto
  obtain fast_exam where f: "latest_fast_exam ?s2 ?cid = Some fast_exam"
    using consistentD(4)[OF assms] by auto
  have "process_case fromiso fromisoformat predict ?cid ?s2 = Inl TypeError \<or>
         (\<exists>p. process_case fromiso fromisoformat predict ?cid ?s2 =
               Inr (?s2\<lparr>published := published ?s2 @ [p],
                      processed_cases := insert ?cid (processed_cases ?s2)\<rparr>)
             \<and> pred_case_id p = ?cid \<and> current_vitals p = Some vitals)"
    by (rule process_case_ready[OF _ _ f]) simp_all
  then show ?thesis
  proof
    assume "process_case fromiso fromisoformat predict ?cid ?s2 = Inl TypeError"
    then show ?thesis
      unfolding handle_message_vitals by (simp add: call_process_case_def)
  next
    assume "\<exists>p. process_case fromiso fromisoformat predict ?cid ?s2 =
               Inr (?s2\<lparr>published := published ?s2 @ [p],
                      processed_cases := insert ?cid (processed_cases ?s2)\<rparr>)
             \<and> pred_case_id p = ?cid \<and> current_vitals p = Some vitals"
    then obtain p where "process_case fromiso fromisoformat predict ?cid ?s2 =
               Inr (?s2\<lparr>published := published ?s2 @ [p],
                      processed_cases := insert ?cid (processed_cases ?s2)\<rparr>)"
      and q: "pred_case_id p = ?cid \<and> current_vitals p = Some vitals" by blast
    then have "handle_message fromiso fromisoformat predict (VitalsMsg (Some vitals)) s =
               (None,
                s\<lparr>latest_vitals := (latest_vitals s)(?cid \<mapsto> vitals),
                  published := published s @ [p]\<rparr>)"
      unfolding handle_message_vitals using ins by (simp add: call_process_case_def)
    with q show ?thesis by blast
  qed
qed

lemma handle_message_other_updates:
  "exam_case_id fast_exam \<in> processed_cases s \<Longrightarrow>
     handle_message fromiso fromisoformat predict (FastExamMsg (Some fast_exam)) s =
       (None, s\<lparr>latest_fast_exam :=
                  (latest_fast_exam s)(exam_case_id fast_exam \<mapsto> fast_exam)\<rparr>)"
  "published (snd (handle_message fromiso fromisoformat predict (CapacityMsg capacity) s))
     = published s"
  "fst (handle_message fromiso fromisoformat predict (CapacityMsg capacity) s) = None"
  unfolding handle_message_fast_exam
  by (simp_all add: call_process_case_def process_case_skips handle_message_def
      split: option.splits)

text \<open>
  C5. A reading for an already evaluated case whose time stamp has no UTC offset, while
  the onset time of the screening result has one: \<open>_minutes_between\<close> raises \<open>TypeError\<close>,
  the exception ends the loop, no new prediction is published, the case is left unmarked,
  and the reading that follows is never handled. The same reading with an offset
  publishes exactly one new prediction.
\<close>

theorem reading_without_offset_ends_loop:
  "run no_clock example_fromisoformat (\<lambda>n. heuristic_predict)
     [VitalsMsg (Some example_vitals), FastExamMsg (Some example_fast_exam),
      VitalsMsg (Some example_vitals_naive), VitalsMsg (Some example_vitals_update)]
     init_processor
   = (Some TypeError,
      snd (run no_clock example_fromisoformat (\<lambda>n. heuristic_predict)
         [VitalsMsg (Some example_vitals), FastExamMsg (Some example_fast_exam)]
         init_processor)
        \<lparr>latest_vitals := [''CASE-1'' \<mapsto> example_vitals_naive], processed_cases := {}\<rparr>) \<and>
   ''CASE-1'' \<in> processed_cases (snd (run no_clock example_fromisoformat
         (\<lambda>n. heuristic_predict)
         [VitalsMsg (Some example_vitals), FastExamMsg (Some example_fast_exam)]
         init_processor)) \<and>
   map current_vitals (published (snd (run no_clock example_fromisoformat
         (\<lambda>n. heuristic_predict)
         [VitalsMsg (Some example_vitals), FastExamMsg (Some example_fast_exam),
          VitalsMsg (Some example_vitals_naive), VitalsMsg (Some example_vitals_update)]
         init_processor)))
     = [Some example_vitals] \<and>
   minutes_between example_fromisoformat (symptom_onset_ts example_fast_exam)
     (Some (vitals_event_ts example_vitals_naive)) = Inl TypeError \<and>
   fst (run no_clock example_fromisoformat (\<lambda>n. heuristic_predict)
         [VitalsMsg (Some example_vitals), FastExamMsg (Some example_fast_exam),
          VitalsMsg (Some example_vitals_update)] init_processor) = None \<and>
   map current_vitals (published (snd (run no_clock example_fromisoformat
         (\<lambda>n. heuristic_predict)
         [VitalsMsg (Some example_vitals), FastExamMsg (Some example_fast_exam),
          VitalsMsg (Some example_vitals_update)] init_processor)))
     = [Some example_vitals, Some example_vitals_update]"
  by (simp add: processor_eval case_prod_beta)

subsection \<open>The history window\<close>

text \<open>
  The analyzer's own operation keeps the window bounded and evicts the oldest snapshot
  first.
\<close>

lemma add_vital_snapshot_history:
  "vital_history (add_vital_snapshot ta cid snapshot) cid =
     Some (let history = (case vital_history ta cid of None \<Rightarrow> [] | Some h \<Rightarrow> h) @ [snapshot]
           in if length history > max_history_size ta
              then last_slice (max_history_size ta) history else history)"
  by (simp add: add_vital_snapshot_def Let_def)

lemma add_vital_snapshot_bounded:
  assumes "0 < max_history_size ta"
    and "vital_history (add_vital_snapshot ta cid snapshot) cid = Some h'"
  shows "length h' \<le> max_history_size ta \<and> h' \<noteq> [] \<and> last h' = snapshot"
  using assms
  by (auto simp: add_vital_snapshot_def Let_def last_slice_def split: if_splits option.splits)

lemma add_vital_snapshot_fifo:
  assumes "vital_history ta cid = Some h" and "length h = max_history_size ta"
    and "0 < max_history_size ta"
  shows "vital_history (add_vital_snapshot ta cid snapshot) cid = Some (tl h @ [snapshot])"
  using assms
  by (cases h) (auto simp: add_vital_snapshot_def Let_def last_slice_def)

text \<open>
  C1. What the loop does with a reading: it overwrites the case's current reading, and it
  leaves the trend analyzer's history untouched. \<open>add_vital_snapshot\<close> is never called, so
  after any sequence of messages the history of every case is still absent; after one
  reading for \<open>CASE-1\<close> the history of \<open>CASE-1\<close> holds no snapshot.
\<close>

theorem run_never_records_history:
  "vital_history (trend_analyzer (snd (run fromiso fromisoformat predict msgs init_processor)))
     = Map.empty \<and>
   latest_vitals (snd (handle_message fromiso fromisoformat predict (VitalsMsg (Some vitals)) s))
     = (latest_vitals s)(vitals_case_id vitals \<mapsto> vitals) \<and>
   vital_history (trend_analyzer
       (snd (handle_message fromiso fromisoformat predict (VitalsMsg (Some vitals)) s)))
     = vital_history (trend_analyzer s) \<and>
   vital_history (trend_analyzer (snd (run no_clock example_fromisoformat
       (\<lambda>n. heuristic_predict) [VitalsMsg (Some example_vitals)] init_processor))) ''CASE-1''
     = None"
proof -
  have a: "vital_history (trend_analyzer (snd (run fi fif pr ms init_processor))) = Map.empty"
    for fi fif pr ms
    unfolding run_trend_analyzer by (simp add: init_processor_def init_trend_analyzer_def)
  have b: "latest_vitals
             (snd (handle_message fromiso fromisoformat predict (VitalsMsg (Some vitals)) s))
           = (latest_vitals s)(vitals_case_id vitals \<mapsto> vitals)"
    by (simp add: handle_message_vitals call_process_case_frame)
  show ?thesis
    using a[of fromiso fromisoformat predict msgs]
      a[of no_clock example_fromisoformat "\<lambda>n. heuristic_predict"
        "[VitalsMsg (Some example_vitals)]"] b
    by (simp add: handle_message_trend_analyzer)
qed

subsection \<open>Trend direction\<close>

lemma calculate_rate_and_trend_unfold:
  fixes vals :: "(real \<times> real) list"
  defines "vs \<equiv> sort_key fst vals"
  defines "time_diff_min \<equiv> (fst (last vs) - fst (hd vs)) / 60.0"
  defines "rate \<equiv> (snd (last vs) - snd (hd vs)) / time_diff_min"
  shows "calculate_rate_and_trend vals =
           (if length vals < 2 then (None, None)
            else if time_diff_min = 0 then (None, None)
            else (Some rate, Some (if \<bar>rate\<bar> < 0.1 then 0 else if rate > 0 then 1 else -1)))"
  unfolding calculate_rate_and_trend_def Let_def rate_def time_diff_min_def vs_def
  by (rule refl)

lemma calculate_rate_and_trend_sign:
  assumes "calculate_rate_and_trend values = (Some r, t)"
  shows "t = Some (if \<bar>r\<bar> < 0.1 then 0 else if r > 0 then 1 else -1)"
proof -
  define time_diff_min where
    "time_diff_min = (fst (last (sort_key fst values)) - fst (hd (sort_key fst values))) / 60.0"
  define rate where
    "rate = (snd (last (sort_key fst values)) - snd (hd (sort_key fst values))) / time_diff_min"
  have eq: "calculate_rate_and_trend values =
           (if length values < 2 then (None, None)
            else if time_diff_min = 0 then (None, None)
            else (Some rate, Some (if \<bar>rate\<bar> < 0.1 then 0 else if rate > 0 then 1 else -1)))"
    unfolding rate_def time_diff_min_def by (rule calculate_rate_and_trend_unfold)
  show ?thesis
  proof (cases "length values < 2 \<or> time_diff_min = 0")
    case True
    have "calculate_rate_and_trend values = (None, None)"
      unfolding eq using True by (cases "length values < 2") simp_all
    with assms show ?thesis by simp
  next
    case False
    define f :: "real \<Rightarrow> int" where
      "f = (\<lambda>x. if \<bar>x\<bar> < 0.1 then 0 else if x > 0 then 1 else -1)"
    from False eq have "calculate_rate_and_trend values = (Some rate, Some (f rate))"
      unfolding f_def by simp
    with assms have "(Some r, t) = (Some rate, Some (f rate))" by (rule trans[OF sym])
    then have "t = Some (f r)" by (metis Pair_inject option.inject)
    then show ?thesis unfolding f_def .
  qed
qed

lemma calculate_rate_and_trend_None:
  "fst (calculate_rate_and_trend values) = None \<longleftrightarrow> snd (calculate_rate_and_trend values) = None"
  unfolding calculate_rate_and_trend_unfold by simp

lemma calculate_trends_rate_trend:
  assumes "rate_of v (calculate_trends fromiso ta cid) = Some r"
  shows "\<exists>values. calculate_rate_and_trend values
           = (Some r, trend_of v (calculate_trends fromiso ta cid))"
proof (cases "vital_history ta cid")
  case None
  with assms show ?thesis
    by (cases v) (simp_all add: calculate_trends_def empty_features_def)
next
  case (Some history)
  show ?thesis
  proof (cases "length history < 2")
    case True
    with Some assms show ?thesis
      by (cases v) (simp_all add: calculate_trends_def empty_features_def)
  next
    case False
    show ?thesis
    proof (cases v)
      case HeartRate
      with assms Some False show ?thesis
        by (auto simp: calculate_trends_def empty_features_def Let_def split: if_splits
            intro!: exI[of _ "series fromiso snap_heart_rate_bpm history"] prod_eqI)
    next
      case SystolicPressure
      with assms Some False show ?thesis
        by (auto simp: calculate_trends_def empty_features_def Let_def split: if_splits
            intro!: exI[of _ "series fromiso snap_systolic_bp_mmHg history"] prod_eqI)
    next
      case OxygenSaturation
      with assms Some False show ?thesis
        by (auto simp: calculate_trends_def empty_features_def Let_def split: if_splits
            intro!: exI[of _ "series fromiso snap_spo2_pct history"] prod_eqI)
    next
      case ConsciousnessScore
      with assms Some False show ?thesis
        by (auto simp: calculate_trends_def empty_features_def Let_def split: if_splits
            intro!: exI[of _ "series fromiso snap_gcs_total history"] prod_eqI)
    qed
  qed
qed

lemma trend_is_sign_of_rate:
  assumes "rate_of v (calculate_trends fromiso ta cid) = Some r"
  shows "trend_of v (calculate_trends fromiso ta cid)
           = Some (if \<bar>r\<bar> < 0.1 then 0 else if r > 0 then 1 else -1)"
  using calculate_trends_rate_trend[OF assms] calculate_rate_and_trend_sign by blast

lemmas trend_eval =
  calculate_trends_def falling_analyzer_def falling_history_def minute_clock_def series_def
  parse_timestamp_def calculate_rate_and_trend_def empty_features_def List.map_filter_def
  Let_def

text \<open>
  C9, as amended. For every tracked vital with a defined rate of change the direction is
  defined; it is stable (\<open>0\<close>) iff \<open>\<bar>rate\<bar> < 0.1\<close>, worsening (\<open>-1\<close>) iff the rate is at most
  \<open>-0.1\<close> and improving (\<open>1\<close>) iff it is at least \<open>0.1\<close>. So a falling oxygen saturation or
  consciousness score is worsening. The rule is the same for the four vitals: no polarity
  is applied per vital, and two rates of the same sign outside the stable band never get
  different labels, whichever vitals they belong to.
\<close>

theorem trend_direction_by_rate:
  assumes "rate_of v (calculate_trends fromiso ta cid) = Some r"
  shows "\<exists>t. trend_of v (calculate_trends fromiso ta cid) = Some t \<and>
           (t = 0 \<longleftrightarrow> \<bar>r\<bar> < 0.1) \<and>
           (t = -1 \<longleftrightarrow> r \<le> -0.1) \<and>
           (t = 1 \<longleftrightarrow> r \<ge> 0.1) \<and>
           (t = 0 \<or> t = -1 \<or> t = 1)"
  using trend_is_sign_of_rate[OF assms] by auto

theorem trend_direction_by_rate_witness:
  "rate_of OxygenSaturation (calculate_trends minute_clock falling_analyzer ''CASE-1'') = Some (-6) \<and>
   trend_of OxygenSaturation (calculate_trends minute_clock falling_analyzer ''CASE-1'') = Some (-1) \<and>
   rate_of ConsciousnessScore (calculate_trends minute_clock falling_analyzer ''CASE-1'') = Some 0 \<and>
   trend_of ConsciousnessScore (calculate_trends minute_clock falling_analyzer ''CASE-1'') = Some 0"
  using trend_direction_by_rate[of OxygenSaturation minute_clock falling_analyzer "''CASE-1''" "-6"]
    trend_direction_by_rate[of ConsciousnessScore minute_clock falling_analyzer "''CASE-1''" 0]
  by (simp add: trend_eval)

theorem trend_direction_raw_sign_counterexample:
  "\<not> (\<exists>fromiso ta cid v ta' cid' v' r r'.
        rate_of v (calculate_trends fromiso ta cid) = Some r \<and>
        rate_of v' (calculate_trends fromiso ta' cid') = Some r' \<and>
        \<bar>r\<bar> \<ge> 0.1 \<and> \<bar>r'\<bar> \<ge> 0.1 \<and> sgn r = sgn r' \<and>
        trend_of v (calculate_trends fromiso ta cid)
          \<noteq> trend_of v' (calculate_trends fromiso ta' cid'))"
proof
  assume "\<exists>fromiso ta cid v ta' cid' v' r r'.
        rate_of v (calculate_trends fromiso ta cid) = Some r \<and>
        rate_of v' (calculate_trends fromiso ta' cid') = Some r' \<and>
        \<bar>r\<bar> \<ge> 0.1 \<and> \<bar>r'\<bar> \<ge> 0.1 \<and> sgn r = sgn r' \<and>
        trend_of v (calculate_trends fromiso ta cid)
          \<noteq> trend_of v' (calculate_trends fromiso ta' cid')"
  then obtain fromiso ta cid v ta' cid' v' and r r' :: real where
    a: "rate_of v (calculate_trends fromiso ta cid) = Some r"
    and b: "rate_of v' (calculate_trends fromiso ta' cid') = Some r'"
    and c: "\<bar>r\<bar> \<ge> 0.1" "\<bar>r'\<bar> \<ge> 0.1" "sgn r = sgn r'"
    and d: "trend_of v (calculate_trends fromiso ta cid)
          \<noteq> trend_of v' (calculate_trends fromiso ta' cid')"
    by blast
  from c have "(r > 0) = (r' > 0)" by (auto simp: sgn_if split: if_splits)
  with c d show False
    unfolding trend_is_sign_of_rate[OF a] trend_is_sign_of_rate[OF b] by auto
qed

lemma heart_rate_same_label_example:
  "trend_of HeartRate (calculate_trends minute_clock falling_analyzer ''CASE-1'') = Some (-1) \<and>
   trend_of OxygenSaturation (calculate_trends minute_clock falling_analyzer ''CASE-1'') = Some (-1) \<and>
   rate_of HeartRate (calculate_trends minute_clock falling_analyzer ''CASE-1'')
     = rate_of OxygenSaturation (calculate_trends minute_clock falling_analyzer ''CASE-1'')"
  by (simp add: trend_eval)

subsection \<open>Recency-weighted change\<close>

lemma weighted_loop_sums:
  "weighted_loop latest_time pts (total_weight, weighted_sum) =
     (total_weight + sum_list (map (\<lambda>p. recency_weight latest_time (fst p)) pts),
      weighted_sum + sum_list (map (\<lambda>p. snd p * recency_weight latest_time (fst p)) pts))"
proof (induction pts arbitrary: total_weight weighted_sum)
  case Nil
  then show ?case by simp
next
  case (Cons p pts)
  obtain t v where p: "p = (t, v)" by (cases p)
  show ?case
    unfolding p by (simp add: Cons.IH Let_def recency_weight_def add.assoc)
qed

lemma recency_weight_pos: "0 < recency_weight latest_time t"
  by (simp add: recency_weight_def)

lemma sum_recency_weight_pos:
  "pts \<noteq> [] \<Longrightarrow> 0 < sum_list (map (\<lambda>p. recency_weight latest_time (fst p)) pts)"
proof (induction pts)
  case Nil
  then show ?case by simp
next
  case (Cons p pts)
  have "0 \<le> sum_list (map (\<lambda>p. recency_weight latest_time (fst p)) pts)"
    by (rule sum_list_nonneg) (auto simp: less_imp_le[OF recency_weight_pos])
  then show ?case using recency_weight_pos[of latest_time "fst p"] by simp
qed

lemma sorted_hd_least:
  "sorted (map f xs) \<Longrightarrow> x \<in> set xs \<Longrightarrow> f (hd xs) \<le> f x"
  by (cases xs) auto

lemma sorted_last_greatest:
  "sorted (map f xs) \<Longrightarrow> x \<in> set xs \<Longrightarrow> f x \<le> f (last xs)"
  by (induction xs) (auto split: if_splits)

text \<open>
  C8, as amended. The recency-weighted delta of a vital is computed over the recent
  points only, those at most 5 minutes older than the latest point: with at least two
  points in all and at least two recent ones it is the \<open>exp (- ageMinutes / 2)\<close>-weighted
  average of the recent values minus the value of the earliest recent point, ages being
  measured back from the latest point; otherwise it is undefined. The latest point is
  always recent, and the first recent point is the earliest of them. Taken over all
  points of the window instead, the formula differs from the code for two points ten
  minutes apart.
\<close>

theorem recent_change_weighted_average:
  fixes vals :: "(real \<times> real) list"
  defines "pts \<equiv> sort_key fst vals"
  defines "latest_time \<equiv> fst (last pts)"
  defines "recent \<equiv> filter (\<lambda>p. (latest_time - fst p) / 60 \<le> 5) pts"
  shows
    "calculate_recent_change vals 5 =
       (if length vals < 2 \<or> length recent < 2 then None
        else Some (sum_list (map (\<lambda>p. snd p * recency_weight latest_time (fst p)) recent)
                     / sum_list (map (\<lambda>p. recency_weight latest_time (fst p)) recent)
                   - snd (hd recent))) \<and>
     (vals \<noteq> [] \<longrightarrow>
        last pts \<in> set recent \<and>
        (\<forall>p \<in> set recent. fst (hd recent) \<le> fst p \<and> fst p \<le> latest_time \<and>
                            latest_time - fst p \<le> 300) \<and>
        (\<forall>p \<in> set vals. p \<in> set recent \<longleftrightarrow> latest_time - fst p \<le> 300))"
proof
  define R where "R = filter (\<lambda>(t, v). (latest_time - t) / 60.0 \<le> 5) pts"
  have unfold: "calculate_recent_change vals 5 =
      (if length vals < 2 then None
       else if length R < 2 then None
       else (case weighted_loop latest_time R (0.0, 0.0) of
               (total_weight, weighted_sum) \<Rightarrow>
                 if total_weight = 0 then None
                 else Some (weighted_sum / total_weight - snd (hd R))))"
    unfolding calculate_recent_change_def Let_def R_def latest_time_def pts_def
    by (rule refl)
  have filt: "R = recent"
    unfolding R_def recent_def by (rule filter_cong) auto
  show "calculate_recent_change vals 5 =
       (if length vals < 2 \<or> length recent < 2 then None
        else Some (sum_list (map (\<lambda>p. snd p * recency_weight latest_time (fst p)) recent)
                     / sum_list (map (\<lambda>p. recency_weight latest_time (fst p)) recent)
                   - snd (hd recent)))"
  proof (cases "length vals < 2 \<or> length recent < 2")
    case True
    then show ?thesis unfolding unfold filt by auto
  next
    case False
    then have ne: "recent \<noteq> []" by auto
    have pos: "sum_list (map (\<lambda>p. recency_weight latest_time (fst p)) recent) \<noteq> 0"
      using sum_recency_weight_pos[OF ne, of latest_time] by simp
    show ?thesis
      unfolding unfold filt using False pos by (simp add: weighted_loop_sums)
  qed
next
  show "vals \<noteq> [] \<longrightarrow>
        last pts \<in> set recent \<and>
        (\<forall>p \<in> set recent. fst (hd recent) \<le> fst p \<and> fst p \<le> latest_time \<and>
                            latest_time - fst p \<le> 300) \<and>
        (\<forall>p \<in> set vals. p \<in> set recent \<longleftrightarrow> latest_time - fst p \<le> 300)"
  proof (intro impI conjI ballI)
    assume ne: "vals \<noteq> []"
    then have pne: "pts \<noteq> []" unfolding pts_def by (metis length_sort length_0_conv)
    have srt: "sorted (map fst pts)" unfolding pts_def by simp
    show "last pts \<in> set recent"
      unfolding recent_def latest_time_def using pne by simp
    have srec: "sorted (map fst recent)"
      unfolding recent_def by (rule sorted_filter[OF srt])
    {
      fix p assume p: "p \<in> set recent"
      show "fst (hd recent) \<le> fst p" by (rule sorted_hd_least[OF srec p])
      from p have pp: "p \<in> set pts" unfolding recent_def by simp
      show "fst p \<le> latest_time"
        unfolding latest_time_def by (rule sorted_last_greatest[OF srt pp])
      from p show "latest_time - fst p \<le> 300" unfolding recent_def by simp
    }
    {
      fix p assume "p \<in> set vals"
      then have "p \<in> set pts" unfolding pts_def by simp
      then show "p \<in> set recent \<longleftrightarrow> latest_time - fst p \<le> 300"
        unfolding recent_def by auto
    }
  qed
qed

theorem recent_change_weighted_average_witness:
  "calculate_recent_change [(60, 110), (0, 100)] 5
     = Some ((100 * exp (- (1 / 2)) + 110) / (exp (- (1 / 2)) + 1) - 100) \<and>
   calculate_recent_change [(0, 100), (0, 110)] 5 = Some 5 \<and>
   calculate_recent_change [(0, 100), (600, 110), (660, 120)] 5
     = Some ((110 * exp (- (1 / 2)) + 120) / (exp (- (1 / 2)) + 1) - 110)"
  using recent_change_weighted_average[of "[(60, 110), (0, 100)]"]
    recent_change_weighted_average[of "[(0, 100), (0, 110)]"]
    recent_change_weighted_average[of "[(0, 100), (600, 110), (660, 120)]"]
  by (simp add: recency_weight_def)

theorem recent_change_window_counterexample:
  "calculate_recent_change [(0, 100), (600, 110)] 5 = None \<and>
   spec_recent_change [(0, 100), (600, 110)]
     = Some ((100 * exp (- 5) + 110) / (exp (- 5) + 1) - 100) \<and>
   calculate_recent_change [(0, 100), (600, 110)] 5 \<noteq> spec_recent_change [(0, 100), (600, 110)]"
  by (simp add: calculate_recent_change_def spec_recent_change_def recency_weight_def Let_def)

end
